theory Spec2Isabelle
  imports Main "HOL-Library.Multiset" "HOL-Library.Product_Lexorder"
begin

section \<open>The platform's Date object\<close>

text \<open>
  The calendar widget does all of its calendar arithmetic through the JavaScript
  \<^verbatim>\<open>Date\<close> object. A \<^verbatim>\<open>Date\<close> holds a time value: the number of
  milliseconds since 1970-01-01T00:00:00Z. The definitions of this section follow the
  abstract operations of the ECMAScript language specification (section "Date Objects"):
  \<^verbatim>\<open>Day\<close>, \<^verbatim>\<open>TimeWithinDay\<close>, \<^verbatim>\<open>DaysInYear\<close>,
  \<^verbatim>\<open>DayFromYear\<close>, \<^verbatim>\<open>YearFromTime\<close>, \<^verbatim>\<open>MonthFromTime\<close>,
  \<^verbatim>\<open>DateFromTime\<close>, \<^verbatim>\<open>WeekDay\<close>, \<^verbatim>\<open>MakeTime\<close>,
  \<^verbatim>\<open>MakeDay\<close>, \<^verbatim>\<open>MakeDate\<close>.

  Two things are abstracted. The local time zone is a fixed offset \<open>tz\<close>, in minutes
  east of Greenwich (the negation of \<^verbatim>\<open>getTimezoneOffset()\<close>), so daylight-saving
  transitions are not modelled. Time values are unbounded integers, so the
  \<^verbatim>\<open>Invalid Date\<close> beyond \<open>\<plusminus>8.64e15\<close> ms does not occur.
\<close>

type_synonym time_value = int

definition msPerDay :: int where
  "msPerDay = 86400000"

definition msPerMinute :: int where
  "msPerMinute = 60000"

definition Day :: "time_value \<Rightarrow> int" where
  "Day t = t div msPerDay"

definition TimeWithinDay :: "time_value \<Rightarrow> int" where
  "TimeWithinDay t = t mod msPerDay"

definition DaysInYear :: "int \<Rightarrow> int" where
  "DaysInYear y =
     (if y mod 4 \<noteq> 0 then 365
      else if y mod 100 \<noteq> 0 then 366
      else if y mod 400 \<noteq> 0 then 365
      else 366)"

definition DayFromYear :: "int \<Rightarrow> int" where
  "DayFromYear y =
     365 * (y - 1970) + (y - 1969) div 4 - (y - 1901) div 100 + (y - 1601) div 400"

text \<open>
  \<^verbatim>\<open>YearFromTime(t)\<close> is "the largest integer \<open>y\<close> such that
  \<^verbatim>\<open>TimeFromYear(y) \<le> t\<close>". It is computed as engines do, from the mean
  length of a Gregorian year (146097 days in 400 years) with a correction of at most one
  year; \<open>YearFromDay_largest\<close> below proves that this is the year the specification
  describes.
\<close>

definition YearFromDay :: "int \<Rightarrow> int" where
  "YearFromDay n =
     (let y = 1970 + (400 * n) div 146097 in
      if DayFromYear (y + 1) \<le> n then y + 1
      else if DayFromYear y \<le> n then y
      else y - 1)"

definition InLeapYear :: "int \<Rightarrow> int" where
  "InLeapYear y = (if DaysInYear y = 366 then 1 else 0)"

text \<open>The number of the first day of month \<open>m\<close> (0 to 11) within its year.\<close>

definition month_start :: "int \<Rightarrow> int \<Rightarrow> int" where
  "month_start m leap =
     (if m = 0 then 0
      else if m = 1 then 31
      else if m = 2 then 59 + leap
      else if m = 3 then 90 + leap
      else if m = 4 then 120 + leap
      else if m = 5 then 151 + leap
      else if m = 6 then 181 + leap
      else if m = 7 then 212 + leap
      else if m = 8 then 243 + leap
      else if m = 9 then 273 + leap
      else if m = 10 then 304 + leap
      else 334 + leap)"

text \<open>The length of month \<open>m\<close> (0 to 11) of year \<open>y\<close>.\<close>

definition DaysInMonth :: "int \<Rightarrow> int \<Rightarrow> int" where
  "DaysInMonth y m =
     (if m = 1 then 28 + InLeapYear y
      else if m = 3 \<or> m = 5 \<or> m = 8 \<or> m = 10 then 30
      else 31)"

definition DayWithinYear :: "int \<Rightarrow> int" where
  "DayWithinYear n = n - DayFromYear (YearFromDay n)"

definition MonthFromDay :: "int \<Rightarrow> int" where
  "MonthFromDay n =
     (let d = DayWithinYear n; leap = InLeapYear (YearFromDay n) in
      if d < 31 then 0
      else if d < 59 + leap then 1
      else if d < 90 + leap then 2
      else if d < 120 + leap then 3
      else if d < 151 + leap then 4
      else if d < 181 + leap then 5
      else if d < 212 + leap then 6
      else if d < 243 + leap then 7
      else if d < 273 + leap then 8
      else if d < 304 + leap then 9
      else if d < 334 + leap then 10
      else 11)"

definition DateFromDay :: "int \<Rightarrow> int" where
  "DateFromDay n =
     DayWithinYear n - month_start (MonthFromDay n) (InLeapYear (YearFromDay n)) + 1"

definition WeekDay :: "int \<Rightarrow> int" where
  "WeekDay n = (n + 4) mod 7"

definition MakeTime :: "int \<Rightarrow> int \<Rightarrow> int \<Rightarrow> int \<Rightarrow> int" where
  "MakeTime h m s milli = h * 3600000 + m * 60000 + s * 1000 + milli"

definition MakeDay :: "int \<Rightarrow> int \<Rightarrow> int \<Rightarrow> int" where
  "MakeDay year month dt =
     (let ym = year + month div 12; mn = month mod 12 in
      DayFromYear ym + month_start mn (InLeapYear ym) + dt - 1)"

definition MakeDate :: "int \<Rightarrow> int \<Rightarrow> time_value" where
  "MakeDate day time = day * msPerDay + time"

definition LocalTime :: "int \<Rightarrow> time_value \<Rightarrow> int" where
  "LocalTime tz t = t + tz * msPerMinute"

definition UTC :: "int \<Rightarrow> int \<Rightarrow> time_value" where
  "UTC tz t = t - tz * msPerMinute"

subsection \<open>The methods of Date the widget calls\<close>

definition getFullYear :: "int \<Rightarrow> time_value \<Rightarrow> int" where
  "getFullYear tz t = YearFromDay (Day (LocalTime tz t))"

definition getMonth :: "int \<Rightarrow> time_value \<Rightarrow> int" where
  "getMonth tz t = MonthFromDay (Day (LocalTime tz t))"

definition getDate :: "int \<Rightarrow> time_value \<Rightarrow> int" where
  "getDate tz t = DateFromDay (Day (LocalTime tz t))"

definition getDay :: "int \<Rightarrow> time_value \<Rightarrow> int" where
  "getDay tz t = WeekDay (Day (LocalTime tz t))"

definition setDate :: "int \<Rightarrow> time_value \<Rightarrow> int \<Rightarrow> time_value" where
  "setDate tz t dt =
     UTC tz (MakeDate (MakeDay (getFullYear tz t) (getMonth tz t) dt)
                      (TimeWithinDay (LocalTime tz t)))"

definition setMonth :: "int \<Rightarrow> time_value \<Rightarrow> int \<Rightarrow> time_value" where
  "setMonth tz t m =
     UTC tz (MakeDate (MakeDay (getFullYear tz t) m (getDate tz t))
                      (TimeWithinDay (LocalTime tz t)))"

definition setFullYear :: "int \<Rightarrow> time_value \<Rightarrow> int \<Rightarrow> time_value" where
  "setFullYear tz t y =
     UTC tz (MakeDate (MakeDay y (getMonth tz t) (getDate tz t))
                      (TimeWithinDay (LocalTime tz t)))"

text \<open>\<^verbatim>\<open>d.setHours(h, m, s, ms)\<close>: the local day is kept, the time within it replaced.\<close>

definition setHours :: "int \<Rightarrow> time_value \<Rightarrow> int \<Rightarrow> int \<Rightarrow> int \<Rightarrow> int \<Rightarrow> time_value" where
  "setHours tz t h m s milli = UTC tz (MakeDate (Day (LocalTime tz t)) (MakeTime h m s milli))"

text \<open>
  \<^verbatim>\<open>new Date(year, month, date, hours, minutes, seconds)\<close>: the arguments are local
  time, and a year from 0 to 99 stands for 1900 + year.
\<close>

definition Date_local :: "int \<Rightarrow> int \<Rightarrow> int \<Rightarrow> int \<Rightarrow> int \<Rightarrow> int \<Rightarrow> int \<Rightarrow> time_value" where
  "Date_local tz year month dt h m s =
     (let yr = (if 0 \<le> year \<and> year \<le> 99 then 1900 + year else year) in
      UTC tz (MakeDate (MakeDay yr month dt) (MakeTime h m s 0)))"


definition getHours :: "int \<Rightarrow> time_value \<Rightarrow> int" where
  "getHours tz t = TimeWithinDay (LocalTime tz t) div 3600000"

definition getMinutes :: "int \<Rightarrow> time_value \<Rightarrow> int" where
  "getMinutes tz t = (TimeWithinDay (LocalTime tz t) div 60000) mod 60"

definition getSeconds :: "int \<Rightarrow> time_value \<Rightarrow> int" where
  "getSeconds tz t = (TimeWithinDay (LocalTime tz t) div 1000) mod 60"

text \<open>
  A date-time string is modelled by what it says. The widget reads and writes two
  shapes: \<^verbatim>\<open>YYYY-MM-DDTHH:mm:ss\<close> with no zone designator, which
  \<^verbatim>\<open>new Date(string)\<close> reads as local time, and the output of
  \<^verbatim>\<open>toISOString()\<close>, \<^verbatim>\<open>YYYY-MM-DDTHH:mm:ss.sssZ\<close>, which is UTC. The
  fields are year, month (1 to 12), day, hours, minutes, seconds (and milliseconds).
\<close>

datatype date_time_string =
    LocalDateTime int int int int int int
  | UtcDateTime int int int int int int int

fun Date_parse :: "int \<Rightarrow> date_time_string \<Rightarrow> time_value" where
  "Date_parse tz (LocalDateTime y mo d h mi s) =
     UTC tz (MakeDate (MakeDay y (mo - 1) d) (MakeTime h mi s 0))"
| "Date_parse tz (UtcDateTime y mo d h mi s milli) =
     MakeDate (MakeDay y (mo - 1) d) (MakeTime h mi s milli)"

definition toISOString :: "time_value \<Rightarrow> date_time_string" where
  "toISOString t =
     (let n = Day t; w = TimeWithinDay t in
      UtcDateTime (YearFromDay n) (MonthFromDay n + 1) (DateFromDay n)
        (w div 3600000) ((w div 60000) mod 60) ((w div 1000) mod 60) (w mod 1000))"



text \<open>
  The remainder operator \<^verbatim>\<open>%\<close> takes the sign of the dividend, and
  \<^verbatim>\<open>Math.round\<close> rounds a half up.
\<close>

definition js_rem :: "int \<Rightarrow> int \<Rightarrow> int" where
  "js_rem a b = (if 0 \<le> a then a mod \<bar>b\<bar> else - ((- a) mod \<bar>b\<bar>))"


section \<open>The data of one widget instance\<close>

text \<open>
  \<^verbatim>\<open>formatDateToDateString\<close> prints \<^verbatim>\<open>YYYY-MM-DD\<close>, and
  \<^verbatim>\<open>formatTime\<close> prints \<^verbatim>\<open>HH:mm:ss\<close>. Both strings are modelled by
  their three numbers; the literals \<^verbatim>\<open>'00:00'\<close> and \<^verbatim>\<open>'23:59'\<close> are
  \<open>(0, 0, 0)\<close> and \<open>(23, 59, 0)\<close>.
\<close>

type_synonym date_string = "int \<times> int \<times> int"

type_synonym time_string = "int \<times> int \<times> int"

record duration =
  days :: int
  hours :: int
  minutes :: int
  totalMinutes :: int
  totalSeconds :: int
  seconds :: int

text \<open>One entry of \<^verbatim>\<open>extras.displayDates\<close>; \<open>times\<close> is \<open>None\<close> when
  \<^verbatim>\<open>times.start\<close> and \<^verbatim>\<open>times.end\<close> are null.\<close>

record display_date =
  dd_date :: date_string
  dd_day :: int
  times :: "(time_string \<times> time_string) option"
  visibleInWeek :: bool
  visibleInMonth :: bool

text \<open>
  \<^verbatim>\<open>appointment.extras\<close>, without the presentation fields (locale, icon, colors,
  the formatted duration). In the year view the extras hold two flags only.
\<close>

record view_extras =
  e_start_date :: date_string
  e_start_time :: time_string
  e_end_date :: date_string
  e_end_time :: time_string
  e_duration :: duration
  displayDates :: "display_date list"
  e_allDay :: bool
  inADay :: bool
  isToday :: bool
  isNow :: bool

datatype extras = YearExtras bool bool | ViewExtras view_extras

text \<open>
  An appointment record. \<open>a_start\<close> and \<open>a_end\<close> are the properties
  \<^verbatim>\<open>start\<close> and \<^verbatim>\<open>end\<close>. The records of the year view carry
  \<^verbatim>\<open>date\<close> and \<^verbatim>\<open>total\<close> instead: \<open>a_date\<close> is the time value
  \<^verbatim>\<open>Date.parse(appointment.date)\<close> gives, \<open>None\<close> when the property is missing
  or does not parse; \<open>total\<close> is what \<^verbatim>\<open>parseInt(appointment.total)\<close> gives,
  \<open>None\<close> when the property is missing or the result is NaN.
\<close>

record appointment =
  title :: string
  a_start :: date_time_string
  a_end :: date_time_string
  allDay :: bool
  a_date :: "time_value option"
  total :: "int option"
  extras :: "extras option"

text \<open>
  The widget calls code of the page: the function \<^verbatim>\<open>settings.url\<close>, the hook
  \<^verbatim>\<open>settings.queryParams\<close>, and the handlers of the events it triggers. What
  such code computes is not the widget's business; what matters to the widget is how the
  call ends. A function at \<^verbatim>\<open>settings.url\<close> returns a promise, or returns a
  value that has no \<^verbatim>\<open>then\<close> method, or throws. A hook is not set, or returns,
  or throws.
\<close>

datatype view = ViewDay | ViewWeek | ViewMonth | ViewYear | ViewSearch | ViewUnknown

datatype callback = ReturnsPromise | ReturnsNoPromise | CallbackThrows

datatype url_kind = UrlFunction callback | UrlString | UrlNone

datatype hook = NoHook | HookReturns | HookThrows

record settings =
  startWeekOnSunday :: bool
  debug :: bool
  url :: url_kind
  queryParams :: hook

text \<open>
  The data the widget keeps on its wrapper element (\<^verbatim>\<open>getBsCalendarData\<close>),
  reduced to the fields the modelled functions read or write. \<open>search_empty\<close> says
  that the search input holds no text, \<open>xhr_pending\<close> that
  \<^verbatim>\<open>xhrs.appointments\<close> is not null, \<open>debug_log\<close> is what \<^verbatim>\<open>log(...)\<close>
  has printed, \<open>rendered\<close> the appointments that have a
  \<^verbatim>\<open>[data-appointment]\<close> element in the page. \<open>failing_handlers\<close> lists the
  events with a handler that throws, be it bound to the wrapper element or given in the
  settings (\<^verbatim>\<open>onBeforeLoad\<close>, ...); a handler of the event \<^verbatim>\<open>all\<close>, which
  runs with every event, puts every event on the list. The handlers of the other events
  return and leave the data alone.
\<close>

record bs_calendar_data =
  settings :: settings
  view :: view
  date :: time_value
  searchMode :: bool
  search_empty :: bool
  loading :: bool
  xhr_pending :: bool
  appointments :: "appointment list"
  rendered :: "appointment list"
  debug_log :: "string list"
  failing_handlers :: "string list"

text \<open>
  The data of a widget that has nothing loaded: the given week-start convention, view
  and date, a request source at a URL, debug output off, no hook, no handler that throws.
\<close>

definition idle_data :: "bool \<Rightarrow> view \<Rightarrow> time_value \<Rightarrow> bs_calendar_data" where
  "idle_data sunday v d =
     \<lparr> settings = \<lparr> startWeekOnSunday = sunday, debug = False, url = UrlString,
                    queryParams = NoHook \<rparr>,
       view = v, date = d, searchMode = False, search_empty = True, loading = False,
       xhr_pending = False, appointments = [], rendered = [], debug_log = [],
       failing_handlers = [] \<rparr>"

text \<open>
  \<^verbatim>\<open>trigger\<close> runs the handlers of an event one after the other, with no
  \<^verbatim>\<open>try\<close> around them. The value is \<open>True\<close> when all of them return, and
  \<open>False\<close> when one throws: then the exception leaves \<^verbatim>\<open>trigger\<close> and goes
  on to its caller.
\<close>

definition trigger :: "bs_calendar_data \<Rightarrow> string \<Rightarrow> bool" where
  "trigger data event = (event \<notin> set (failing_handlers data))"

section \<open>The date-range resolver and the date shifts of navigation\<close>

definition formatDateToDateString :: "int \<Rightarrow> time_value \<Rightarrow> date_string" where
  "formatDateToDateString tz d = (getFullYear tz d, getMonth tz d + 1, getDate tz d)"

text \<open>Calendar dates are compared year first, then month, then day.\<close>

definition date_string_le :: "date_string \<Rightarrow> date_string \<Rightarrow> bool" where
  "date_string_le a b =
     (case a of (y1, m1, d1) \<Rightarrow> case b of (y2, m2, d2) \<Rightarrow>
        y1 < y2 \<or> (y1 = y2 \<and> (m1 < m2 \<or> (m1 = m2 \<and> d1 \<le> d2))))"

record period =
  p_date :: date_string
  p_start :: date_string
  p_end :: date_string

text \<open>
  \<^verbatim>\<open>getStartAndEndDateByView\<close>. \<open>week_window\<close> and \<open>month_window\<close> are the
  bodies of the \<^verbatim>\<open>case "week"\<close> and \<^verbatim>\<open>case "month"\<close> blocks; they return
  \<^verbatim>\<open>startDate\<close> and \<^verbatim>\<open>endDate\<close>.
\<close>

definition week_window :: "int \<Rightarrow> bool \<Rightarrow> time_value \<Rightarrow> time_value \<times> time_value" where
  "week_window tz sunday d =
     (let dayOfWeek = getDay tz d;
          diffToMonday = (if sunday then dayOfWeek
                          else (if dayOfWeek = 0 then - 6 else 1 - dayOfWeek));
          startDate = setDate tz d (getDate tz d + diffToMonday);
          newEnd = setDate tz startDate (getDate tz startDate + 6)
      in (startDate, newEnd))"

definition month_window :: "int \<Rightarrow> bool \<Rightarrow> time_value \<Rightarrow> time_value \<times> time_value" where
  "month_window tz sunday d =
     (let startDate1 = setDate tz d 1;
          startDayOfWeek = getDay tz startDate1;
          startDate =
            (if sunday then setDate tz startDate1 (getDate tz startDate1 - startDayOfWeek)
             else (let offset = (if startDayOfWeek = 0 then 6 else startDayOfWeek - 1)
                   in setDate tz startDate1 (getDate tz startDate1 - offset)));
          endDate1 = setMonth tz d (getMonth tz d + 1);
          endDate2 = setDate tz endDate1 0;
          endDayOfWeek = getDay tz endDate2;
          endDate =
            (if sunday then (let offset = 6 - endDayOfWeek
                             in setDate tz endDate2 (getDate tz endDate2 + offset))
             else (let offset = (if endDayOfWeek = 0 then - 1 else 7 - endDayOfWeek)
                   in setDate tz endDate2 (getDate tz endDate2 + offset)))
      in (startDate, endDate))"

definition year_window :: "int \<Rightarrow> time_value \<Rightarrow> time_value \<times> time_value" where
  "year_window tz d =
     (setDate tz (setMonth tz d 0) 1, setDate tz (setMonth tz d 11) 31)"

definition getStartAndEndDateByView :: "int \<Rightarrow> bs_calendar_data \<Rightarrow> period" where
  "getStartAndEndDateByView tz data =
     (let d = date data;
          sunday = startWeekOnSunday (settings data);
          (startDate, endDate) =
            (case view data of
               ViewDay \<Rightarrow> (d, d)
             | ViewWeek \<Rightarrow> week_window tz sunday d
             | ViewMonth \<Rightarrow> month_window tz sunday d
             | ViewYear \<Rightarrow> year_window tz d
             | ViewSearch \<Rightarrow> year_window tz d
             | ViewUnknown \<Rightarrow> (d, d))
      in \<lparr> p_date = formatDateToDateString tz d,
           p_start = formatDateToDateString tz startDate,
           p_end = formatDateToDateString tz endDate \<rparr>)"

text \<open>
  The \<^verbatim>\<open>switch (view)\<close> blocks of \<^verbatim>\<open>navigateBack\<close> and
  \<^verbatim>\<open>navigateForward\<close>: the value of \<^verbatim>\<open>newDate\<close> after the block. The
  two functions themselves follow the fetching of appointments, which they start.
\<close>

definition newDate_back :: "int \<Rightarrow> view \<Rightarrow> time_value \<Rightarrow> time_value" where
  "newDate_back tz v d =
     (case v of
        ViewMonth \<Rightarrow>
          (let nd = setMonth tz d (getMonth tz d - 1)
           in if getDate tz nd \<noteq> getDate tz d then setDate tz nd 1 else nd)
      | ViewYear \<Rightarrow> setDate tz (setFullYear tz d (getFullYear tz d - 1)) 1
      | ViewWeek \<Rightarrow> setDate tz d (getDate tz d - 7)
      | ViewDay \<Rightarrow> setDate tz d (getDate tz d - 1)
      | _ \<Rightarrow> d)"

definition newDate_forward :: "int \<Rightarrow> view \<Rightarrow> time_value \<Rightarrow> time_value" where
  "newDate_forward tz v d =
     (case v of
        ViewMonth \<Rightarrow>
          (let nd = setMonth tz d (getMonth tz d + 1)
           in if getDate tz nd \<noteq> getDate tz d then setDate tz nd 1 else nd)
      | ViewYear \<Rightarrow> setDate tz (setFullYear tz d (getFullYear tz d + 1)) 1
      | ViewWeek \<Rightarrow> setDate tz d (getDate tz d + 7)
      | ViewDay \<Rightarrow> setDate tz d (getDate tz d + 1)
      | _ \<Rightarrow> d)"

section \<open>Appointment normalization\<close>

text \<open>
  \<^verbatim>\<open>cleanAppointments\<close>. \<^verbatim>\<open>trim()\<close> and \<^verbatim>\<open>normalizeDateTime\<close> (a
  space replaced by \<^verbatim>\<open>T\<close>) change the text of a date-time string, not what it
  says, so they do not show in the model.
\<close>

definition cleanAppointment :: "int \<Rightarrow> appointment \<Rightarrow> appointment" where
  "cleanAppointment tz appointment =
     (if allDay appointment then
        (let startDate = Date_parse tz (a_start appointment);
             endDate = Date_parse tz (a_end appointment)
         in appointment
            \<lparr> a_start := toISOString (Date_local tz (getFullYear tz startDate)
                          (getMonth tz startDate) (getDate tz startDate) 0 0 0),
              a_end := toISOString (Date_local tz (getFullYear tz endDate)
                          (getMonth tz endDate) (getDate tz endDate) 23 59 59) \<rparr>)
      else appointment)"

definition cleanAppointments :: "int \<Rightarrow> appointment list \<Rightarrow> appointment list" where
  "cleanAppointments tz appts = map (cleanAppointment tz) appts"

text \<open>
  \<^verbatim>\<open>sortAppointmentByStart\<close>. \<open>compareAppointments\<close> is the comparison function
  handed to \<^verbatim>\<open>Array.prototype.sort\<close>. The sort is stable (ECMAScript 2019), and
  the comparison is a consistent ordering, so the result is the one stable sorted
  arrangement, whichever algorithm an engine runs; here it is built by insertion.
\<close>

definition compareAppointments :: "int \<Rightarrow> bool \<Rightarrow> appointment \<Rightarrow> appointment \<Rightarrow> int" where
  "compareAppointments tz sortAllDay a b =
     (if sortAllDay \<and> allDay a \<and> \<not> allDay b then - 1
      else if sortAllDay \<and> \<not> allDay a \<and> allDay b then 1
      else Date_parse tz (a_start a) - Date_parse tz (a_start b))"

fun insert_by :: "('a \<Rightarrow> 'a \<Rightarrow> int) \<Rightarrow> 'a \<Rightarrow> 'a list \<Rightarrow> 'a list" where
  "insert_by cmp x [] = [x]"
| "insert_by cmp x (y # ys) =
     (if cmp x y \<le> 0 then x # y # ys else y # insert_by cmp x ys)"

definition array_sort :: "('a \<Rightarrow> 'a \<Rightarrow> int) \<Rightarrow> 'a list \<Rightarrow> 'a list" where
  "array_sort cmp xs = foldr (insert_by cmp) xs []"

definition sortAppointmentByStart :: "int \<Rightarrow> appointment list \<Rightarrow> bool \<Rightarrow> appointment list" where
  "sortAppointmentByStart tz appts sortAllDay =
     (if appts = [] then []
      else array_sort (compareAppointments tz sortAllDay) appts)"

text \<open>
  \<^verbatim>\<open>setAppointmentExtras\<close>, the branch for the views other than year, in three
  parts: the bounds of the month grid, the loop that fills \<^verbatim>\<open>displayDates\<close>, and
  the duration.
\<close>

definition formatTime :: "int \<Rightarrow> time_value \<Rightarrow> time_string" where
  "formatTime tz d = (getHours tz d, getMinutes tz d, getSeconds tz d)"

definition datesAreEqual :: "int \<Rightarrow> time_value \<Rightarrow> time_value \<Rightarrow> bool" where
  "datesAreEqual tz date1 date2 =
     (getFullYear tz date1 = getFullYear tz date2 \<and>
      getMonth tz date1 = getMonth tz date2 \<and>
      getDate tz date1 = getDate tz date2)"

definition toDateString :: "int \<Rightarrow> time_value \<Rightarrow> int \<times> int \<times> int \<times> int" where
  "toDateString tz d = (getDay tz d, getMonth tz d, getDate tz d, getFullYear tz d)"

definition extras_month_bounds :: "int \<Rightarrow> bool \<Rightarrow> time_value \<Rightarrow> time_value \<times> time_value" where
  "extras_month_bounds tz sunday now =
     (let firstOfMonth = Date_local tz (getFullYear tz now) (getMonth tz now) 1 0 0 0;
          lastOfMonth = Date_local tz (getFullYear tz now) (getMonth tz now + 1) 0 0 0 0;
          firstDayOffset = (if sunday then 0 else 1);
          monthStart = setDate tz firstOfMonth
             (getDate tz firstOfMonth - js_rem (getDay tz firstOfMonth - firstDayOffset + 7) 7);
          monthEnd = setDate tz lastOfMonth
             (getDate tz lastOfMonth + (6 - js_rem (getDay tz lastOfMonth - firstDayOffset + 7) 7))
      in (monthStart, monthEnd))"

definition dateDetails ::
  "int \<Rightarrow> bool \<Rightarrow> bool \<Rightarrow> time_value \<Rightarrow> time_value \<Rightarrow> time_value \<Rightarrow> time_value \<Rightarrow> time_value
     \<Rightarrow> display_date" where
  "dateDetails tz sunday isAllDay monthStart monthEnd start end tempDate =
     (let dateIsStart = datesAreEqual tz tempDate start;
          dateIsEnd = datesAreEqual tz tempDate end;
          tms =
            (if isAllDay then None
             else if dateIsStart then
               Some (formatTime tz start,
                     if end > setHours tz tempDate 23 59 59 999 then (23, 59, 0)
                     else formatTime tz end)
             else if dateIsEnd then Some ((0, 0, 0), formatTime tz end)
             else Some ((0, 0, 0), (23, 59, 0)));
          weekRangeStart1 =
            (if sunday then setDate tz tempDate (getDate tz tempDate - getDay tz tempDate)
             else (let dayOffset = (if getDay tz tempDate = 0 then 7 else getDay tz tempDate) - 1
                   in setDate tz tempDate (getDate tz tempDate - dayOffset)));
          weekRangeStart = setHours tz weekRangeStart1 0 0 0 0;
          weekRangeEnd = weekRangeStart + 7 * 24 * 60 * 60 * 1000 - 1
      in \<lparr> dd_date = formatDateToDateString tz tempDate,
           dd_day = getDay tz tempDate,
           times = tms,
           visibleInWeek = (tempDate \<ge> weekRangeStart \<and> tempDate \<le> weekRangeEnd),
           visibleInMonth = (tempDate \<ge> monthStart \<and> tempDate \<le> monthEnd) \<rparr>)"

function displayDates_loop ::
  "int \<Rightarrow> bool \<Rightarrow> bool \<Rightarrow> time_value \<Rightarrow> time_value \<Rightarrow> time_value \<Rightarrow> time_value \<Rightarrow> time_value
     \<Rightarrow> time_value \<Rightarrow> display_date list" where
  "displayDates_loop tz sunday isAllDay monthStart monthEnd start end tempEnd tempDate =
     (if tempDate \<le> tempEnd then
        dateDetails tz sunday isAllDay monthStart monthEnd start end tempDate #
        displayDates_loop tz sunday isAllDay monthStart monthEnd start end tempEnd
          (setDate tz tempDate (getDate tz tempDate + 1))
      else [])"
  by pat_completeness auto
termination
proof (relation "measure (\<lambda>(tz, sunday, isAllDay, monthStart, monthEnd, start, end, tempEnd, tempDate).
                   nat (tempEnd + 1 - tempDate))")
  show "wf (measure (\<lambda>(tz, sunday, isAllDay, monthStart, monthEnd, start, end, tempEnd, tempDate).
                   nat (tempEnd + 1 - tempDate)))"
    by simp
next
  fix tz :: int and sunday isAllDay :: bool
    and monthStart monthEnd start "end" tempEnd tempDate :: time_value
  assume le: "tempDate \<le> tempEnd"
  define l where "l = LocalTime tz tempDate"
  define n where "n = Day l"
  have m: "0 \<le> MonthFromDay n \<and> MonthFromDay n < 12"
    by (simp add: MonthFromDay_def Let_def)
  then have dm: "MonthFromDay n div 12 = 0" "MonthFromDay n mod 12 = MonthFromDay n"
    by simp_all
  have "MakeDay (YearFromDay n) (MonthFromDay n) (DateFromDay n + 1) = n + 1"
    by (simp add: MakeDay_def Let_def dm DateFromDay_def DayWithinYear_def)
  moreover have "(l div msPerDay + 1) * msPerDay + l mod msPerDay = l + msPerDay"
    by (simp add: algebra_simps)
  ultimately have "setDate tz tempDate (getDate tz tempDate + 1) = tempDate + msPerDay"
    by (simp add: setDate_def getDate_def getFullYear_def getMonth_def UTC_def MakeDate_def
        TimeWithinDay_def Day_def LocalTime_def l_def n_def)
  then show "((tz, sunday, isAllDay, monthStart, monthEnd, start, end, tempEnd,
                setDate tz tempDate (getDate tz tempDate + 1)),
              (tz, sunday, isAllDay, monthStart, monthEnd, start, end, tempEnd, tempDate))
             \<in> measure (\<lambda>(tz, sunday, isAllDay, monthStart, monthEnd, start, end, tempEnd, tempDate).
                   nat (tempEnd + 1 - tempDate))"
    using le by (simp add: msPerDay_def)
qed

definition appointment_duration :: "int \<Rightarrow> bool \<Rightarrow> time_value \<Rightarrow> time_value \<Rightarrow> duration" where
  "appointment_duration tz isAllDay start end =
     (let diffMillis = end - start in
      if isAllDay then
        (let startDate = Date_local tz (getFullYear tz start) (getMonth tz start) (getDate tz start) 0 0 0;
             endDate = Date_local tz (getFullYear tz end) (getMonth tz end) (getDate tz end) 0 0 0;
             diffDaysMillis = endDate - startDate
         in \<lparr> days = diffDaysMillis div (24 * 3600 * 1000) + 1,
              hours = 0,
              minutes = 0,
              totalMinutes = diffMillis div (60 * 1000),
              totalSeconds = diffMillis div 1000,
              seconds = 0 \<rparr>)
      else
        (let totalSecs = diffMillis div 1000
         in \<lparr> days = totalSecs div (24 * 3600),
              hours = js_rem totalSecs (24 * 3600) div 3600,
              minutes = js_rem totalSecs 3600 div 60,
              totalMinutes = (totalSecs + 30) div 60,
              totalSeconds = totalSecs,
              seconds = js_rem totalSecs 60 \<rparr>))"

definition appointmentExtras :: "int \<Rightarrow> time_value \<Rightarrow> bool \<Rightarrow> appointment \<Rightarrow> view_extras" where
  "appointmentExtras tz now sunday appointment =
     (let start = Date_parse tz (a_start appointment);
          end = Date_parse tz (a_end appointment);
          isAllDay = allDay appointment;
          tempDate = setHours tz start 0 0 0 0;
          tempEnd = setHours tz end 0 0 0 0;
          (monthStart, monthEnd) = extras_month_bounds tz sunday now;
          dds = displayDates_loop tz sunday isAllDay monthStart monthEnd start end tempEnd tempDate
      in \<lparr> e_start_date = formatDateToDateString tz start,
           e_start_time = (if isAllDay then (0, 0, 0) else formatTime tz start),
           e_end_date = formatDateToDateString tz end,
           e_end_time = (if isAllDay then (23, 59, 59) else formatTime tz end),
           e_duration = appointment_duration tz isAllDay start end,
           displayDates = dds,
           e_allDay = isAllDay,
           inADay = (length dds = 1),
           isToday = (toDateString tz start = toDateString tz now),
           isNow = (start \<le> now \<and> end \<ge> now) \<rparr>)"

definition yearExtras :: "int \<Rightarrow> time_value \<Rightarrow> appointment \<Rightarrow> extras" where
  "yearExtras tz now appointment =
     (case a_date appointment of
        None \<Rightarrow> YearExtras False False
      | Some d \<Rightarrow> YearExtras (toDateString tz d = toDateString tz now)
                    (getFullYear tz d = getFullYear tz now))"

definition setAppointmentExtras ::
  "int \<Rightarrow> time_value \<Rightarrow> bs_calendar_data \<Rightarrow> appointment list \<Rightarrow> appointment list" where
  "setAppointmentExtras tz now data appts =
     (if view data = ViewYear then
        map (\<lambda>appointment. appointment\<lparr>extras := Some (yearExtras tz now appointment)\<rparr>) appts
      else
        map (\<lambda>appointment. appointment\<lparr>extras := Some (ViewExtras
               (appointmentExtras tz now (startWeekOnSunday (settings data)) appointment))\<rparr>)
            appts)"

text \<open>
  \<^verbatim>\<open>checkAndSetAppointments\<close>: what it stores in \<^verbatim>\<open>data.appointments\<close>. The
  promise it returns resolves with the same list.
\<close>

definition checkAndSetAppointments ::
  "int \<Rightarrow> time_value \<Rightarrow> bs_calendar_data \<Rightarrow> appointment list \<Rightarrow> bs_calendar_data" where
  "checkAndSetAppointments tz now data appts =
     (if appts = [] then data\<lparr>appointments := []\<rparr>
      else if view data = ViewYear then
        (let processedAppointments =
               filter (\<lambda>appointment. a_date appointment \<noteq> None \<and>
                         (case total appointment of None \<Rightarrow> False | Some n \<Rightarrow> n > 0))
                      appts
         in data\<lparr>appointments := setAppointmentExtras tz now data processedAppointments\<rparr>)
      else
        (let cleaned = cleanAppointments tz appts;
             inSearchMode = searchMode data;
             sortedAppointments = sortAppointmentByStart tz cleaned (\<not> inSearchMode)
         in data\<lparr>appointments := setAppointmentExtras tz now data sortedAppointments\<rparr>))"

section \<open>The overlap layout\<close>

text \<open>
  One entry of a weekday's \<^verbatim>\<open>appointments\<close> array in
  \<^verbatim>\<open>groupOverlappingAppointments\<close>: \<^verbatim>\<open>{start, end, appointment}\<close>, the
  two dates as time values.
\<close>

record slot =
  s_start :: time_value
  s_end :: time_value
  s_appointment :: appointment

record day_group =
  g_appointments :: "slot list"
  columns :: "slot list list"
  fullWidth :: "slot list"

fun doesNotOverlap :: "slot list \<Rightarrow> slot \<Rightarrow> bool" where
  "doesNotOverlap [] newAppointment = True"
| "doesNotOverlap (appt # column) newAppointment =
     (if \<not> (s_start newAppointment \<ge> s_end appt \<or> s_end newAppointment \<le> s_start appt)
      then False
      else doesNotOverlap column newAppointment)"

text \<open>
  The \<^verbatim>\<open>for (let column of columns)\<close> loop: the appointment is pushed onto the
  first column it does not overlap; \<open>None\<close> is \<^verbatim>\<open>placedInColumn\<close> staying false.
\<close>

fun place_in_columns :: "slot list list \<Rightarrow> slot \<Rightarrow> slot list list option" where
  "place_in_columns [] a = None"
| "place_in_columns (column # cols) a =
     (if doesNotOverlap column a then Some ((column @ [a]) # cols)
      else map_option (\<lambda>cols'. column # cols') (place_in_columns cols a))"

text \<open>
  \<^verbatim>\<open>appointments.some(...)\<close>: the slots are objects, compared by identity, so a
  slot is told from the others by its place in the array.
\<close>

definition hasOverlap :: "slot list \<Rightarrow> nat \<Rightarrow> slot \<Rightarrow> bool" where
  "hasOverlap appts i a =
     list_ex (\<lambda>(j, otherAppointment).
                j \<noteq> i \<and>
                \<not> (s_start a \<ge> s_end otherAppointment \<or> s_end a \<le> s_start otherAppointment))
             (enumerate 0 appts)"

definition place_appointment ::
  "slot list \<Rightarrow> slot list list \<times> slot list \<Rightarrow> nat \<times> slot \<Rightarrow> slot list list \<times> slot list" where
  "place_appointment appts acc ia =
     (case acc of (cols, full) \<Rightarrow> case ia of (i, a) \<Rightarrow>
        (case place_in_columns cols a of
           Some cols' \<Rightarrow> (cols', full)
         | None \<Rightarrow>
             if \<not> hasOverlap appts i a \<and> length cols = 0 then (cols, full @ [a])
             else (cols @ [[a]], full)))"

definition compareSlots :: "slot \<Rightarrow> slot \<Rightarrow> int" where
  "compareSlots a b = s_start a - s_start b"

text \<open>Step 2 of \<^verbatim>\<open>groupOverlappingAppointments\<close>, for one weekday.\<close>

definition layout_day :: "slot list \<Rightarrow> day_group" where
  "layout_day slots =
     (let appts = array_sort compareSlots slots;
          (cols, full) = foldl (place_appointment appts) ([], []) (enumerate 0 appts)
      in \<lparr> g_appointments = appts, columns = cols, fullWidth = full \<rparr>)"

text \<open>
  Step 1: the slots of the appointments, each with its weekday. A display date whose
  times are null gives \<^verbatim>\<open>Invalid Date\<close> in the source; such a date belongs to an
  all-day appointment, and \<^verbatim>\<open>drawAppointmentsForDayOrWeek\<close> hands over only the
  appointments that are not all-day, so the model leaves it out.
\<close>

definition display_date_slot :: "int \<Rightarrow> appointment \<Rightarrow> display_date \<Rightarrow> (int \<times> slot) list" where
  "display_date_slot tz appt obj =
     (case times obj of
        None \<Rightarrow> []
      | Some (ts, te) \<Rightarrow>
          (case dd_date obj of (y, mo, d) \<Rightarrow>
           case ts of (h1, mi1, s1) \<Rightarrow>
           case te of (h2, mi2, s2) \<Rightarrow>
             (let slotStart = Date_parse tz (LocalDateTime y mo d h1 mi1 s1);
                  slotEnd = Date_parse tz (LocalDateTime y mo d h2 mi2 s2);
                  weekday = getDay tz slotStart
              in [(weekday, \<lparr> s_start = slotStart, s_end = slotEnd, s_appointment = appt \<rparr>)])))"

definition appointment_slots :: "int \<Rightarrow> view \<Rightarrow> appointment \<Rightarrow> (int \<times> slot) list" where
  "appointment_slots tz v appt =
     (case extras appt of
        Some (ViewExtras ex) \<Rightarrow>
          concat (map (\<lambda>obj. if v = ViewWeek \<and> \<not> visibleInWeek obj then []
                              else display_date_slot tz appt obj)
                      (displayDates ex))
      | _ \<Rightarrow> [])"

definition groupOverlappingAppointments ::
  "int \<Rightarrow> bs_calendar_data \<Rightarrow> appointment list \<Rightarrow> int \<Rightarrow> day_group option" where
  "groupOverlappingAppointments tz data appts weekday =
     (let all_slots = concat (map (appointment_slots tz (view data)) appts);
          day_slots = map snd (filter (\<lambda>(w, s). w = weekday) all_slots)
      in if day_slots = [] then None else Some (layout_day day_slots))"

section \<open>Fetching appointments\<close>

text \<open>
  \<^verbatim>\<open>methodClear\<close>: the appointment elements are removed from the page, and with
  \<^verbatim>\<open>removeAppointments\<close> the stored appointments are replaced by the empty list
  (the body of the promise in \<^verbatim>\<open>checkAndSetAppointments\<close> runs at once).
\<close>

definition methodClear :: "int \<Rightarrow> time_value \<Rightarrow> bs_calendar_data \<Rightarrow> bool \<Rightarrow> bs_calendar_data" where
  "methodClear tz now data removeAppointments =
     (let data1 = data\<lparr>rendered := []\<rparr> in
      if removeAppointments then checkAndSetAppointments tz now data1 [] else data1)"

text \<open>
  \<^verbatim>\<open>buildAppointmentsForView\<close> and \<^verbatim>\<open>buildAppointmentsForSearch\<close> draw the
  stored appointments; which of them end up visible is the renderer's business.
\<close>

definition buildAppointmentsForView :: "int \<Rightarrow> time_value \<Rightarrow> bs_calendar_data \<Rightarrow> bs_calendar_data" where
  "buildAppointmentsForView tz now data =
     (let data1 = methodClear tz now data False in data1\<lparr>rendered := appointments data1\<rparr>)"

text \<open>
  The handler \<^verbatim>\<open>.then\<close> of the promise \<^verbatim>\<open>checkAndSetAppointments\<close>
  returns, in the places where appointments have been loaded: the event
  \<^verbatim>\<open>after-load\<close>, then the drawing. A handler of the event that throws rejects
  the promise of \<^verbatim>\<open>.then\<close>, which nobody reads, and the drawing is left out.
\<close>

definition after_load :: "int \<Rightarrow> time_value \<Rightarrow> bs_calendar_data \<Rightarrow> bs_calendar_data" where
  "after_load tz now data =
     (if trigger data ''after-load'' then buildAppointmentsForView tz now data else data)"

text \<open>
  \<^verbatim>\<open>fetchAppointments\<close> up to the point where the request is on its way. The
  result says how the call ended: without a request, with a request to the callback
  source or to the URL on its way, or with an exception that no \<^verbatim>\<open>try\<close> of the
  function catches (\<open>Uncaught\<close>). The data is what the call leaves behind in each
  case. Of the debug output only the reports of the failure handlers are kept in
  \<open>debug_log\<close>.
\<close>

datatype request = NoRequest | CallbackRequest | AjaxRequest | Uncaught

definition fetchAppointments ::
  "int \<Rightarrow> time_value \<Rightarrow> bs_calendar_data \<Rightarrow> bs_calendar_data \<times> request" where
  "fetchAppointments tz now data =
     (if loading data then (data, NoRequest)
      else
        (let data1 = methodClear tz now (data\<lparr>loading := True\<rparr>) True;
             skipLoading = (searchMode data1 \<and> search_empty data1)
         in if queryParams (settings data1) = HookThrows then (data1, Uncaught)
            else if skipLoading then
              ((after_load tz now (checkAndSetAppointments tz now data1 []))
                 \<lparr>loading := False\<rparr>, NoRequest)
            else if \<not> trigger data1 ''before-load'' then (data1, Uncaught)
            else
              (case url (settings data1) of
                 UrlFunction ReturnsPromise \<Rightarrow> (data1, CallbackRequest)
               | UrlFunction ReturnsNoPromise \<Rightarrow> (data1, Uncaught)
               | UrlFunction CallbackThrows \<Rightarrow> (data1, Uncaught)
               | UrlString \<Rightarrow> (data1\<lparr>xhr_pending := True\<rparr>, AjaxRequest)
               | UrlNone \<Rightarrow> (data1\<lparr>loading := False\<rparr>, NoRequest))))"

text \<open>
  How a request ends. A callback source resolves or rejects its promise; a request
  source succeeds or fails with a status, \<^verbatim>\<open>'abort'\<close> when the request was
  cancelled.
\<close>

datatype outcome = Loaded "appointment list" | Failed | Aborted

text \<open>
  The handlers \<^verbatim>\<open>.then\<close>, \<^verbatim>\<open>.catch\<close> and \<^verbatim>\<open>.finally\<close> of the callback
  source. A rejected promise knows no abort status: every rejection is reported.
\<close>

definition callback_settled ::
  "int \<Rightarrow> time_value \<Rightarrow> bs_calendar_data \<Rightarrow> outcome \<Rightarrow> bs_calendar_data" where
  "callback_settled tz now data result =
     (let data1 =
            (case result of
               Loaded appts \<Rightarrow>
                 after_load tz now (checkAndSetAppointments tz now data appts)
             | _ \<Rightarrow>
                 (if debug (settings data)
                  then data\<lparr>debug_log := debug_log data @ [''Error fetching appointments:'']\<rparr>
                  else data))
      in data1\<lparr>loading := False\<rparr>)"

text \<open>The handlers \<^verbatim>\<open>success\<close>, \<^verbatim>\<open>error\<close> and \<^verbatim>\<open>complete\<close> of
  \<^verbatim>\<open>$.ajax\<close>.\<close>

definition ajax_settled ::
  "int \<Rightarrow> time_value \<Rightarrow> bs_calendar_data \<Rightarrow> outcome \<Rightarrow> bs_calendar_data" where
  "ajax_settled tz now data result =
     (let data1 =
            (case result of
               Loaded appts \<Rightarrow>
                 after_load tz now (checkAndSetAppointments tz now data appts)
             | Failed \<Rightarrow>
                 (if debug (settings data)
                  then data\<lparr>debug_log := debug_log data @ [''Error when retrieving the dates:'']\<rparr>
                  else data)
             | Aborted \<Rightarrow> data)
      in data1\<lparr>xhr_pending := False, loading := False\<rparr>)"

text \<open>
  The data once the request, if one is on its way, has ended. After an exception there is
  no request and no handler that could run later.
\<close>

definition request_settled ::
  "int \<Rightarrow> time_value \<Rightarrow> bs_calendar_data \<times> request \<Rightarrow> outcome \<Rightarrow> bs_calendar_data" where
  "request_settled tz now dr result =
     (case dr of (data, req) \<Rightarrow>
        (case req of
           NoRequest \<Rightarrow> data
         | CallbackRequest \<Rightarrow> callback_settled tz now data result
         | AjaxRequest \<Rightarrow> ajax_settled tz now data result
         | Uncaught \<Rightarrow> data))"

subsection \<open>Building the view, and navigation\<close>

text \<open>
  \<^verbatim>\<open>buildByView\<close>. The builders of the search, month, week, year and day view
  empty the view container, and with it go the appointment elements, which all live
  inside it; the rest of what they draw holds no appointments. Then the appointments are
  fetched afresh.
\<close>

definition buildByView ::
  "int \<Rightarrow> time_value \<Rightarrow> bs_calendar_data \<Rightarrow> bool \<Rightarrow> bs_calendar_data \<times> request" where
  "buildByView tz now data triggerViewChanged =
     (if searchMode data then fetchAppointments tz now (data\<lparr>rendered := []\<rparr>)
      else
        (let data1 =
               (case view data of
                  ViewMonth \<Rightarrow> data\<lparr>rendered := []\<rparr>
                | ViewWeek \<Rightarrow> data\<lparr>rendered := []\<rparr>
                | ViewYear \<Rightarrow> data\<lparr>rendered := []\<rparr>
                | ViewDay \<Rightarrow> data\<lparr>rendered := []\<rparr>
                | _ \<Rightarrow> data)
         in if triggerViewChanged \<and> \<not> trigger data1 ''view'' then (data1, Uncaught)
            else fetchAppointments tz now data1))"

text \<open>
  \<^verbatim>\<open>navigateBack\<close> and \<^verbatim>\<open>navigateForward\<close>: the new date is stored, the
  event is triggered, and the view is built for the new date, which starts the fetch.
\<close>

definition navigateBack ::
  "int \<Rightarrow> time_value \<Rightarrow> bs_calendar_data \<Rightarrow> bs_calendar_data \<times> request" where
  "navigateBack tz now data =
     (let newDate = newDate_back tz (view data) (date data);
          data1 = data\<lparr>date := newDate\<rparr>
      in if \<not> trigger data1 ''navigate-back'' then (data1, Uncaught)
         else buildByView tz now data1 False)"

definition navigateForward ::
  "int \<Rightarrow> time_value \<Rightarrow> bs_calendar_data \<Rightarrow> bs_calendar_data \<times> request" where
  "navigateForward tz now data =
     (let newDate = newDate_forward tz (view data) (date data);
          data1 = data\<lparr>date := newDate\<rparr>
      in if \<not> trigger data1 ''navigate-forward'' then (data1, Uncaught)
         else buildByView tz now data1 False)"

section \<open>Notions for the statements\<close>

text \<open>An appointment with a start and an end, not all-day, not yet normalized.\<close>

definition timed_appointment :: "string \<Rightarrow> date_time_string \<Rightarrow> date_time_string \<Rightarrow> appointment" where
  "timed_appointment t s e =
     \<lparr> title = t, a_start = s, a_end = e, allDay = False, a_date = None, total = None,
       extras = None \<rparr>"

text \<open>The time value of an appointment's start, \<^verbatim>\<open>new Date(a.start)\<close>.\<close>

definition start_time :: "int \<Rightarrow> appointment \<Rightarrow> time_value" where
  "start_time tz a = Date_parse tz (a_start a)"

definition without_extras :: "appointment \<Rightarrow> appointment" where
  "without_extras a = a\<lparr>extras := None\<rparr>"

text \<open>
  The order \<open>compareAppointments\<close> describes: with \<open>sortAllDay\<close> the all-day
  records come before the others, and within a group the earlier start comes first.
\<close>

definition sort_rank :: "int \<Rightarrow> bool \<Rightarrow> appointment \<Rightarrow> int \<times> int" where
  "sort_rank tz sortAllDay a = (if sortAllDay \<and> \<not> allDay a then 1 else 0, start_time tz a)"

definition all_day_first :: "int \<Rightarrow> appointment \<Rightarrow> appointment \<Rightarrow> bool" where
  "all_day_first tz a b =
     ((allDay a \<or> \<not> allDay b) \<and> (allDay a = allDay b \<longrightarrow> start_time tz a \<le> start_time tz b))"

text \<open>An all-day appointment, not yet normalized.\<close>

definition all_day_appointment :: "string \<Rightarrow> date_time_string \<Rightarrow> date_time_string \<Rightarrow> appointment" where
  "all_day_appointment t s e =
     \<lparr> title = t, a_start = s, a_end = e, allDay = True, a_date = None, total = None,
       extras = None \<rparr>"

text \<open>The days of the duration in the extras of a stored appointment.\<close>

definition stored_days :: "appointment \<Rightarrow> int option" where
  "stored_days b =
     (case extras b of Some (ViewExtras ex) \<Rightarrow> Some (days (e_duration ex)) | _ \<Rightarrow> None)"

text \<open>The year of the start or of the end is one that \<^verbatim>\<open>new Date(year, ...)\<close>
  reads as 1900 + year.\<close>

definition two_digit_years :: "int \<Rightarrow> appointment \<Rightarrow> bool" where
  "two_digit_years tz a =
     ((0 \<le> getFullYear tz (Date_parse tz (a_start a)) \<and>
       getFullYear tz (Date_parse tz (a_start a)) \<le> 99) \<or>
      (0 \<le> getFullYear tz (Date_parse tz (a_end a)) \<and>
       getFullYear tz (Date_parse tz (a_end a)) \<le> 99))"

text \<open>
  The stored record \<open>b\<close> holds the all-day appointment \<open>a\<close> in normal form: its start
  and end are \<^verbatim>\<open>toISOString()\<close> text, of the instant that is 00:00:00 local time
  on the day \<open>a\<close> starts and of the instant that is 23:59:59 local time on the day \<open>a\<close>
  ends, and its duration in days counts the calendar days from the one to the other, both
  included.
\<close>

definition normalized_all_day :: "int \<Rightarrow> appointment \<Rightarrow> appointment \<Rightarrow> bool" where
  "normalized_all_day tz a b =
     (let start' = Date_parse tz (a_start b);
          end' = Date_parse tz (a_end b)
      in allDay b \<and> title b = title a \<and>
         a_start b = toISOString start' \<and> a_end b = toISOString end' \<and>
         formatDateToDateString tz start' = formatDateToDateString tz (Date_parse tz (a_start a)) \<and>
         formatTime tz start' = (0, 0, 0) \<and>
         formatDateToDateString tz end' = formatDateToDateString tz (Date_parse tz (a_end a)) \<and>
         formatTime tz end' = (23, 59, 59) \<and>
         stored_days b =
           Some (Day (LocalTime tz (Date_parse tz (a_end a)))
                 - Day (LocalTime tz (Date_parse tz (a_start a))) + 1))"

text \<open>
  A single-day appointment whose extras hold one display date with its times, which is
  all the layout reads of an appointment. The duration and the flags are placeholders.
\<close>

definition single_day_appointment ::
  "string \<Rightarrow> date_string \<Rightarrow> int \<Rightarrow> time_string \<Rightarrow> time_string \<Rightarrow> appointment" where
  "single_day_appointment t d wd ts te =
     (case d of (y, mo, dd) \<Rightarrow> case ts of (h1, m1, s1) \<Rightarrow> case te of (h2, m2, s2) \<Rightarrow>
      \<lparr> title = t, a_start = LocalDateTime y mo dd h1 m1 s1, a_end = LocalDateTime y mo dd h2 m2 s2,
        allDay = False, a_date = None, total = None,
        extras = Some (ViewExtras
          \<lparr> e_start_date = d, e_start_time = ts, e_end_date = d, e_end_time = te,
            e_duration = \<lparr> days = 0, hours = 0, minutes = 0, totalMinutes = 0,
                           totalSeconds = 0, seconds = 0 \<rparr>,
            displayDates = [\<lparr> dd_date = d, dd_day = wd, times = Some (ts, te),
                              visibleInWeek = True, visibleInMonth = True \<rparr>],
            e_allDay = False, inADay = True, isToday = False, isNow = False \<rparr>) \<rparr>)"

text \<open>The years \<^verbatim>\<open>new Date(year, ...)\<close> reads as 1900 + year.\<close>

definition two_digit_year :: "int \<Rightarrow> bool" where
  "two_digit_year y = (0 \<le> y \<and> y \<le> 99)"



text \<open>Two slots are apart when one ends at or before the start of the other.\<close>

definition apart :: "slot \<Rightarrow> slot \<Rightarrow> bool" where
  "apart a b = (s_end a \<le> s_start b \<or> s_end b \<le> s_start a)"

section \<open>Facts about the Date model\<close>

subsection \<open>Years\<close>

lemma div_bounds:
  fixes a k :: int
  assumes "0 < k"
  shows "k * (a div k) \<le> a" and "a < k * (a div k) + k"
proof -
  have e: "a = k * (a div k) + a mod k" by simp
  have "0 \<le> a mod k" "a mod k < k" using assms by simp_all
  then show "k * (a div k) \<le> a" "a < k * (a div k) + k" using e by linarith+
qed

lemma div_step:
  fixes a k :: int
  assumes k: "0 < k"
  shows "(a + 1) div k = a div k + (if (a + 1) mod k = 0 then 1 else 0)"
proof -
  have e1: "a = k * (a div k) + a mod k" by simp
  have b: "0 \<le> a mod k" "a mod k < k" using k by simp_all
  show ?thesis
  proof (cases "a mod k + 1 = k")
    case True
    have "a + 1 = k * (a div k) + (a mod k + 1)" using e1 by linarith
    also have "\<dots> = k * (a div k + 1) + 0" using True by (simp add: algebra_simps)
    finally have eq: "a + 1 = k * (a div k + 1) + 0" .
    have "(a + 1) div k = a div k + 1" by (rule int_div_pos_eq[OF eq]) (use k in simp_all)
    moreover have "(a + 1) mod k = 0" by (rule int_mod_pos_eq[OF eq]) (use k in simp_all)
    ultimately show ?thesis by simp
  next
    case False
    then have lt: "a mod k + 1 < k" using b by linarith
    have eq: "a + 1 = k * (a div k) + (a mod k + 1)" using e1 by linarith
    have "(a + 1) div k = a div k" by (rule int_div_pos_eq[OF eq]) (use lt b in simp_all)
    moreover have "(a + 1) mod k = a mod k + 1" by (rule int_mod_pos_eq[OF eq]) (use lt b in simp_all)
    ultimately show ?thesis using b by simp
  qed
qed

lemma mod_shift: "((y::int) - k * c) mod k = y mod k"
  using mod_mult_self2[of y k "- c"] by simp

lemma mod_100_imp_4: assumes "(y::int) mod 100 = 0" shows "y mod 4 = 0"
proof -
  have "(100::int) dvd y" using assms by (simp add: mod_eq_0_iff_dvd)
  moreover have "(4::int) dvd 100" by simp
  ultimately have "4 dvd y" using dvd_trans by blast
  then show ?thesis by simp
qed

lemma mod_400_imp_100: assumes "(y::int) mod 400 = 0" shows "y mod 100 = 0"
proof -
  have "(400::int) dvd y" using assms by (simp add: mod_eq_0_iff_dvd)
  moreover have "(100::int) dvd 400" by simp
  ultimately have "100 dvd y" using dvd_trans by blast
  then show ?thesis by simp
qed

lemma DayFromYear_Suc: "DayFromYear (y + 1) = DayFromYear y + DaysInYear y"
proof -
  have a: "(y + 1 - 1969) div 4 = (y - 1969) div 4 + (if y mod 4 = 0 then 1 else 0)"
    using div_step[of 4 "y - 1969"] mod_shift[of y 4 492] by (simp add: algebra_simps)
  have b: "(y + 1 - 1901) div 100 = (y - 1901) div 100 + (if y mod 100 = 0 then 1 else 0)"
    using div_step[of 100 "y - 1901"] mod_shift[of y 100 19] by (simp add: algebra_simps)
  have c: "(y + 1 - 1601) div 400 = (y - 1601) div 400 + (if y mod 400 = 0 then 1 else 0)"
    using div_step[of 400 "y - 1601"] mod_shift[of y 400 4] by (simp add: algebra_simps)
  show ?thesis
    unfolding DayFromYear_def DaysInYear_def a b c
    using mod_100_imp_4[of y] mod_400_imp_100[of y] by (simp split: if_splits)
qed

lemma DaysInYear_bounds: "365 \<le> DaysInYear y" "DaysInYear y \<le> 366"
  by (simp_all add: DaysInYear_def)

lemma year_estimate:
  fixes n :: int
  defines "k \<equiv> (400 * n) div 146097"
  shows "DayFromYear (1970 + k - 1) \<le> n" and "n < DayFromYear (1970 + k + 2)"
proof -
  have k1: "146097 * k \<le> 400 * n" and k2: "400 * n < 146097 * k + 146097"
    unfolding k_def using div_bounds[of 146097 "400 * n"] by simp_all
  define a where "a = (k + 3) div 4"
  define b where "b = (k + 71) div 100"
  define c where "c = (k + 371) div 400"
  have ub: "DayFromYear (1970 + k + 2) = 365 * k + 730 + a - b + c"
    by (simp add: DayFromYear_def a_def b_def c_def add.commute)
  have "k + 3 < 4 * a + 4" "100 * b \<le> k + 71" "k + 371 < 400 * c + 400"
    unfolding a_def b_def c_def
    using div_bounds[of 4 "k + 3"] div_bounds[of 100 "k + 71"] div_bounds[of 400 "k + 371"]
    by simp_all
  then show "n < DayFromYear (1970 + k + 2)" unfolding ub using k2 by linarith
  define a' where "a' = k div 4"
  define b' where "b' = (k + 68) div 100"
  define c' where "c' = (k + 368) div 400"
  have lb: "DayFromYear (1970 + k - 1) = 365 * k - 365 + a' - b' + c'"
    by (simp add: DayFromYear_def a'_def b'_def c'_def add.commute)
  have "4 * a' \<le> k" "k + 68 < 100 * b' + 100" "400 * c' \<le> k + 368"
    unfolding a'_def b'_def c'_def
    using div_bounds[of 4 k] div_bounds[of 100 "k + 68"] div_bounds[of 400 "k + 368"]
    by simp_all
  then show "DayFromYear (1970 + k - 1) \<le> n" unfolding lb using k1 by linarith
qed

lemma YearFromDay_bounds:
  "DayFromYear (YearFromDay n) \<le> n" "n < DayFromYear (YearFromDay n + 1)"
  using year_estimate[of n]
  by (auto simp add: YearFromDay_def Let_def add.commute add.left_commute)

text \<open>
  The year computed by \<open>YearFromDay\<close> is the one the language specification asks
  for: the largest year that starts on or before the day.
\<close>

lemma DayFromYear_mono: "y \<le> y' \<Longrightarrow> DayFromYear y \<le> DayFromYear y'"
proof (induction y' rule: int_ge_induct)
  case base
  show ?case by simp
next
  case (step i)
  then show ?case using DayFromYear_Suc[of i] DaysInYear_bounds(1)[of i] by linarith
qed

lemma YearFromDay_unique:
  assumes "DayFromYear y \<le> n" and "n < DayFromYear (y + 1)"
  shows "YearFromDay n = y"
proof (rule ccontr)
  assume ne: "YearFromDay n \<noteq> y"
  show False
  proof (cases "YearFromDay n < y")
    case True
    then have "DayFromYear (YearFromDay n + 1) \<le> DayFromYear y"
      by (intro DayFromYear_mono) simp
    with assms(1) YearFromDay_bounds(2)[of n] show False by linarith
  next
    case False
    with ne have "DayFromYear (y + 1) \<le> DayFromYear (YearFromDay n)"
      by (intro DayFromYear_mono) simp
    with assms(2) YearFromDay_bounds(1)[of n] show False by linarith
  qed
qed

lemma YearFromDay_largest:
  "DayFromYear (YearFromDay n) \<le> n \<and> (\<forall>y. DayFromYear y \<le> n \<longrightarrow> y \<le> YearFromDay n)"
proof (intro conjI allI impI)
  show "DayFromYear (YearFromDay n) \<le> n" by (rule YearFromDay_bounds)
next
  fix y assume a: "DayFromYear y \<le> n"
  show "y \<le> YearFromDay n"
  proof (rule ccontr)
    assume "\<not> y \<le> YearFromDay n"
    then have "DayFromYear (YearFromDay n + 1) \<le> DayFromYear y"
      by (intro DayFromYear_mono) simp
    with a YearFromDay_bounds(2)[of n] show False by linarith
  qed
qed

subsection \<open>Months, days and the setters\<close>

lemma MonthFromDay_range: "0 \<le> MonthFromDay n" "MonthFromDay n \<le> 11"
  by (simp_all add: MonthFromDay_def Let_def)

lemma MakeDay_fields: "MakeDay (YearFromDay n) (MonthFromDay n) (DateFromDay n + k) = n + k"
proof -
  have "MonthFromDay n div 12 = 0" "MonthFromDay n mod 12 = MonthFromDay n"
    using MonthFromDay_range[of n] by simp_all
  then show ?thesis
    by (simp add: MakeDay_def Let_def DateFromDay_def DayWithinYear_def)
qed

lemma MakeDate_Day: "MakeDate (Day l + k) (TimeWithinDay l) = l + k * msPerDay"
  by (simp add: MakeDate_def Day_def TimeWithinDay_def algebra_simps)

lemma setDate_add: "setDate tz t (getDate tz t + k) = t + k * msPerDay"
  by (simp add: setDate_def getDate_def getFullYear_def getMonth_def MakeDay_fields
      MakeDate_Day UTC_def LocalTime_def)

lemma setDate_eq: "setDate tz t k = t + (k - getDate tz t) * msPerDay"
  using setDate_add[of tz t "k - getDate tz t"] by simp

lemma Day_add: "Day (t + k * msPerDay) = Day t + k"
  by (simp add: Day_def msPerDay_def)

lemma LocalDay_add: "Day (LocalTime tz (t + k * msPerDay)) = Day (LocalTime tz t) + k"
  using Day_add[of "LocalTime tz t" k] by (simp add: LocalTime_def algebra_simps)

lemma TimeWithinDay_add: "TimeWithinDay (LocalTime tz (t + k * msPerDay)) = TimeWithinDay (LocalTime tz t)"
proof -
  have "LocalTime tz (t + k * msPerDay) = LocalTime tz t + k * msPerDay"
    by (simp add: LocalTime_def)
  then show ?thesis by (simp add: TimeWithinDay_def)
qed

lemma InLeapYear_cases: "InLeapYear y = 0 \<or> InLeapYear y = 1"
  by (simp add: InLeapYear_def)

lemma DaysInYear_leap: "DaysInYear y = 365 + InLeapYear y"
  by (simp add: InLeapYear_def DaysInYear_def)

lemma month_cases:
  assumes "0 \<le> m" "m \<le> (11::int)"
  shows "m = 0 \<or> m = 1 \<or> m = 2 \<or> m = 3 \<or> m = 4 \<or> m = 5 \<or> m = 6 \<or> m = 7 \<or> m = 8 \<or> m = 9 \<or> m = 10 \<or> m = 11"
  using assms by presburger

lemma month_of_day:
  fixes m d leap :: int
  assumes lp: "0 \<le> leap" "leap \<le> 1"
    and mc: "m = 0 \<or> m = 1 \<or> m = 2 \<or> m = 3 \<or> m = 4 \<or> m = 5 \<or> m = 6 \<or> m = 7 \<or> m = 8 \<or> m = 9 \<or> m = 10 \<or> m = 11"
    and d: "1 \<le> d" "d \<le> (if m = 1 then 28 + leap else if m = 3 \<or> m = 5 \<or> m = 8 \<or> m = 10 then 30 else 31)"
  defines "w \<equiv> month_start m leap + d - 1"
  shows "(if w < 31 then 0
      else if w < 59 + leap then 1
      else if w < 90 + leap then 2
      else if w < 120 + leap then 3
      else if w < 151 + leap then 4
      else if w < 181 + leap then 5
      else if w < 212 + leap then 6
      else if w < 243 + leap then 7
      else if w < 273 + leap then 8
      else if w < 304 + leap then 9
      else if w < 334 + leap then 10
      else 11) = m"
  using mc
proof (elim disjE)
  assume "m = 0" then show ?thesis using d lp by (simp add: w_def month_start_def)
next
  assume "m = 1" then show ?thesis using d lp by (simp add: w_def month_start_def)
next
  assume "m = 2" then show ?thesis using d lp by (simp add: w_def month_start_def)
next
  assume "m = 3" then show ?thesis using d lp by (simp add: w_def month_start_def)
next
  assume "m = 4" then show ?thesis using d lp by (simp add: w_def month_start_def)
next
  assume "m = 5" then show ?thesis using d lp by (simp add: w_def month_start_def)
next
  assume "m = 6" then show ?thesis using d lp by (simp add: w_def month_start_def)
next
  assume "m = 7" then show ?thesis using d lp by (simp add: w_def month_start_def)
next
  assume "m = 8" then show ?thesis using d lp by (simp add: w_def month_start_def)
next
  assume "m = 9" then show ?thesis using d lp by (simp add: w_def month_start_def)
next
  assume "m = 10" then show ?thesis using d lp by (simp add: w_def month_start_def)
next
  assume "m = 11" then show ?thesis using d lp by (simp add: w_def month_start_def)
qed

lemma civil_roundtrip:
  assumes m: "0 \<le> m" "m \<le> 11" and d: "1 \<le> d" "d \<le> DaysInMonth y m"
  shows "YearFromDay (MakeDay y m d) = y"
    and "MonthFromDay (MakeDay y m d) = m"
    and "DateFromDay (MakeDay y m d) = d"
proof -
  define leap where "leap = InLeapYear y"
  have lp: "0 \<le> leap" "leap \<le> 1" unfolding leap_def by (simp_all add: InLeapYear_def)
  have dm: "m div 12 = 0" "m mod 12 = m" using m by simp_all
  define w where "w = month_start m leap + d - 1"
  have n: "MakeDay y m d = DayFromYear y + w"
    by (simp add: MakeDay_def Let_def dm leap_def w_def)
  have mc: "m = 0 \<or> m = 1 \<or> m = 2 \<or> m = 3 \<or> m = 4 \<or> m = 5 \<or> m = 6 \<or> m = 7 \<or> m = 8 \<or> m = 9 \<or> m = 10 \<or> m = 11"
    using m by (rule month_cases)
  have d': "d \<le> (if m = 1 then 28 + leap else if m = 3 \<or> m = 5 \<or> m = 8 \<or> m = 10 then 30 else 31)"
    using d(2) unfolding DaysInMonth_def leap_def .
  have mo: "(if w < 31 then 0
      else if w < 59 + leap then 1
      else if w < 90 + leap then 2
      else if w < 120 + leap then 3
      else if w < 151 + leap then 4
      else if w < 181 + leap then 5
      else if w < 212 + leap then 6
      else if w < 243 + leap then 7
      else if w < 273 + leap then 8
      else if w < 304 + leap then 9
      else if w < 334 + leap then 10
      else 11) = m"
    unfolding w_def by (rule month_of_day[OF lp mc d(1) d'])
  have ms: "0 \<le> month_start m leap" "month_start m leap + DaysInMonth y m \<le> 365 + leap"
    using mc lp by (auto simp add: month_start_def DaysInMonth_def leap_def[symmetric])
  have r: "0 \<le> w" "w < 365 + leap"
    using ms d unfolding w_def by linarith+
  have "DayFromYear y \<le> MakeDay y m d" using n r by linarith
  moreover have "MakeDay y m d < DayFromYear (y + 1)"
    using n r DayFromYear_Suc[of y] DaysInYear_leap[of y] by (simp add: leap_def)
  ultimately show Y: "YearFromDay (MakeDay y m d) = y" by (rule YearFromDay_unique)
  have wy: "DayWithinYear (MakeDay y m d) = w"
    using Y unfolding DayWithinYear_def n by simp
  show M: "MonthFromDay (MakeDay y m d) = m"
    unfolding MonthFromDay_def Let_def wy Y leap_def[symmetric] by (rule mo)
  show "DateFromDay (MakeDay y m d) = d"
    unfolding DateFromDay_def wy M Y leap_def[symmetric] by (simp add: w_def)
qed


lemma Day_MakeDate:
  assumes "0 \<le> w" "w < msPerDay"
  shows "Day (MakeDate n w) = n" and "TimeWithinDay (MakeDate n w) = w"
proof -
  have p: "0 < msPerDay" by (simp add: msPerDay_def)
  have e: "MakeDate n w = msPerDay * n + w" by (simp add: MakeDate_def)
  show "Day (MakeDate n w) = n"
    unfolding Day_def by (rule int_div_pos_eq[OF e assms])
  show "TimeWithinDay (MakeDate n w) = w"
    unfolding TimeWithinDay_def by (rule int_mod_pos_eq[OF e assms])
qed

lemma LocalTime_UTC [simp]: "LocalTime tz (UTC tz l) = l"
  by (simp add: LocalTime_def UTC_def)











lemma MakeTime_parts:
  "MakeTime (w div 3600000) ((w div 60000) mod 60) ((w div 1000) mod 60) (w mod 1000) = w"
proof -
  have a: "w div 3600000 = (w div 60000) div 60"
    using zdiv_zmult2_eq[of 60 w 60000] by simp
  have b: "w div 60000 = (w div 1000) div 60"
    using zdiv_zmult2_eq[of 60 w 1000] by simp
  have c: "(w div 60000) mod 60 = w div 60000 - 60 * ((w div 60000) div 60)"
    by (simp add: minus_mult_div_eq_mod)
  have d: "(w div 1000) mod 60 = w div 1000 - 60 * ((w div 1000) div 60)"
    by (simp add: minus_mult_div_eq_mod)
  have e: "w mod 1000 = w - 1000 * (w div 1000)"
    by (simp add: minus_mult_div_eq_mod)
  show ?thesis
    unfolding MakeTime_def a c d e b[symmetric] by (simp add: b)
qed

lemma Date_parse_toISOString: "Date_parse tz (toISOString t) = t"
proof -
  have "MakeDay (YearFromDay (Day t)) (MonthFromDay (Day t)) (DateFromDay (Day t)) = Day t"
    using MakeDay_fields[of "Day t" 0] by simp
  moreover have "Day t * msPerDay + TimeWithinDay t = t"
    by (simp add: Day_def TimeWithinDay_def)
  ultimately show ?thesis
    by (simp add: toISOString_def Let_def MakeTime_parts MakeDate_def)
qed

text \<open>Local midnight of the local day of \<open>t\<close>, and the last second of that day.\<close>

lemma Date_local_of_fields:
  assumes "\<not> (0 \<le> getFullYear tz t \<and> getFullYear tz t \<le> 99)"
  shows "Date_local tz (getFullYear tz t) (getMonth tz t) (getDate tz t) h mi s =
         UTC tz (MakeDate (Day (LocalTime tz t)) (MakeTime h mi s 0))"
  using assms MakeDay_fields[of "Day (LocalTime tz t)" 0]
  by (auto simp add: Date_local_def getFullYear_def getMonth_def getDate_def)

lemma local_fields_of_day_time:
  assumes "0 \<le> w" "w < msPerDay"
  shows "Day (LocalTime tz (UTC tz (MakeDate n w))) = n"
    and "TimeWithinDay (LocalTime tz (UTC tz (MakeDate n w))) = w"
  using Day_MakeDate[OF assms] by simp_all

lemma formatTime_of_day_time:
  assumes "0 \<le> h" "h < 24" "0 \<le> mi" "mi < 60" "0 \<le> s" "s < 60"
  shows "formatTime tz (UTC tz (MakeDate n (MakeTime h mi s 0))) = (h, mi, s)"
    and "Day (LocalTime tz (UTC tz (MakeDate n (MakeTime h mi s 0)))) = n"
proof -
  define w where "w = MakeTime h mi s 0"
  have w: "w = 3600000 * h + (60000 * mi + 1000 * s)" by (simp add: w_def MakeTime_def)
  have r: "0 \<le> w" "w < msPerDay" using assms by (simp_all add: w msPerDay_def)
  have t: "TimeWithinDay (MakeDate n w) = w"
    by (rule Day_MakeDate(2)[OF r])
  have h: "w div 3600000 = h"
    by (rule int_div_pos_eq[OF w]) (use assms in simp_all)
  have w2: "w = 60000 * (60 * h + mi) + 1000 * s" by (simp add: w)
  have m: "w div 60000 = 60 * h + mi"
    by (rule int_div_pos_eq[OF w2]) (use assms in simp_all)
  have w3: "w = 1000 * (3600 * h + 60 * mi + s) + 0" by (simp add: w)
  have s: "w div 1000 = 3600 * h + 60 * mi + s"
    by (rule int_div_pos_eq[OF w3]) simp_all
  have m': "(60 * h + mi) mod 60 = mi" using assms by simp
  have s': "(3600 * h + 60 * mi + s) mod 60 = s"
  proof -
    have e: "3600 * h + 60 * mi + s = 60 * (60 * h + mi) + s" by simp
    show ?thesis by (rule int_mod_pos_eq[OF e]) (use assms in simp_all)
  qed
  show "formatTime tz (UTC tz (MakeDate n (MakeTime h mi s 0))) = (h, mi, s)"
    unfolding w_def[symmetric]
    using assms(3,4)
    by (simp add: formatTime_def getHours_def getMinutes_def getSeconds_def t h m s s')
  show "Day (LocalTime tz (UTC tz (MakeDate n (MakeTime h mi s 0)))) = n"
    unfolding w_def[symmetric] by (rule local_fields_of_day_time(1)[OF r])
qed

lemma formatDateToDateString_day:
  "formatDateToDateString tz t =
     (YearFromDay (Day (LocalTime tz t)), MonthFromDay (Day (LocalTime tz t)) + 1,
      DateFromDay (Day (LocalTime tz t)))"
  by (simp add: formatDateToDateString_def getFullYear_def getMonth_def getDate_def)

lemma same_day_same_date:
  "Day (LocalTime tz t) = Day (LocalTime tz t') \<Longrightarrow>
   formatDateToDateString tz t = formatDateToDateString tz t'"
  by (simp add: formatDateToDateString_day)

lemma parse_local:
  assumes "1 \<le> mo" "mo \<le> 12" "1 \<le> d" "d \<le> DaysInMonth y (mo - 1)"
    and "0 \<le> h" "h < 24" "0 \<le> mi" "mi < 60" "0 \<le> s" "s < 60"
  shows "Day (LocalTime tz (Date_parse tz (LocalDateTime y mo d h mi s))) = MakeDay y (mo - 1) d"
    and "formatDateToDateString tz (Date_parse tz (LocalDateTime y mo d h mi s)) = (y, mo, d)"
    and "getFullYear tz (Date_parse tz (LocalDateTime y mo d h mi s)) = y"
proof -
  have m: "0 \<le> mo - 1" "mo - 1 \<le> 11" using assms(1,2) by simp_all
  show D: "Day (LocalTime tz (Date_parse tz (LocalDateTime y mo d h mi s))) = MakeDay y (mo - 1) d"
    using formatTime_of_day_time(2)[OF assms(5-10), of tz "MakeDay y (mo - 1) d"] by simp
  show "formatDateToDateString tz (Date_parse tz (LocalDateTime y mo d h mi s)) = (y, mo, d)"
    unfolding formatDateToDateString_day D using civil_roundtrip[OF m assms(3,4)] by simp
  show "getFullYear tz (Date_parse tz (LocalDateTime y mo d h mi s)) = y"
    unfolding getFullYear_def D using civil_roundtrip(1)[OF m assms(3,4)] by simp
qed

lemma WeekDay_range: "0 \<le> WeekDay n" "WeekDay n \<le> 6"
  by (simp_all add: WeekDay_def)

lemma setHours_midnight:
  "setHours tz t 0 0 0 0 = Day (LocalTime tz t) * msPerDay - tz * msPerMinute"
  by (simp add: setHours_def UTC_def MakeDate_def MakeTime_def)

section \<open>The date-range resolver\<close>

lemma resolve_week:
  "getStartAndEndDateByView tz (idle_data sunday ViewWeek d) =
        \<lparr> p_date = formatDateToDateString tz d,
          p_start = formatDateToDateString tz (fst (week_window tz sunday d)),
          p_end = formatDateToDateString tz (snd (week_window tz sunday d)) \<rparr>"
  by (simp add: getStartAndEndDateByView_def idle_data_def split_beta)

lemma resolve_month:
  "getStartAndEndDateByView tz (idle_data sunday ViewMonth d) =
        \<lparr> p_date = formatDateToDateString tz d,
          p_start = formatDateToDateString tz (fst (month_window tz sunday d)),
          p_end = formatDateToDateString tz (snd (month_window tz sunday d)) \<rparr>"
  by (simp add: getStartAndEndDateByView_def idle_data_def split_beta)

text \<open>
  What the week case computes, for every date: the start is the date moved by a number of
  days, the end is six days after the start. With Monday as first weekday the start is
  the Monday on or before the date. With Sunday as first weekday the start is the date
  moved forward by its weekday number.
\<close>

lemma week_window_eq:
  "week_window tz sunday d =
     (let k = (if sunday then getDay tz d else if getDay tz d = 0 then - 6 else 1 - getDay tz d)
      in (d + k * msPerDay, d + (k + 6) * msPerDay))"
proof -
  define k where "k = (if sunday then getDay tz d else if getDay tz d = 0 then - 6 else 1 - getDay tz d)"
  define s where "s = setDate tz d (getDate tz d + k)"
  have s: "s = d + k * msPerDay" unfolding s_def by (rule setDate_add)
  have e: "setDate tz s (getDate tz s + 6) = d + (k + 6) * msPerDay"
    unfolding setDate_add s by (simp add: distrib_right)
  have "week_window tz sunday d = (s, setDate tz s (getDate tz s + 6))"
    unfolding week_window_def Let_def s_def k_def ..
  then have "week_window tz sunday d = (s, d + (k + 6) * msPerDay)"
    by (simp only: e)
  then show ?thesis unfolding s Let_def k_def .
qed

lemma getDay_add: "getDay tz (d + k * msPerDay) = (getDay tz d + k) mod 7"
proof -
  have "(Day (LocalTime tz d) + k + 4) mod 7 = ((Day (LocalTime tz d) + 4) mod 7 + k) mod 7"
    by (simp add: mod_add_left_eq add.assoc add.commute[of k 4])
  then show ?thesis
    by (simp only: getDay_def WeekDay_def LocalDay_add)
qed

lemma week_window_monday:
  "getDay tz (fst (week_window tz False d)) = 1"
  "fst (week_window tz False d) \<le> d"
  "d \<le> fst (week_window tz False d) + 6 * msPerDay"
  "snd (week_window tz False d) = fst (week_window tz False d) + 6 * msPerDay"
proof -
  define g where "g = getDay tz d"
  define k where "k = (if g = 0 then - 6 else 1 - g)"
  have g: "0 \<le> g" "g \<le> 6"
    unfolding g_def getDay_def by (rule WeekDay_range)+
  have w: "week_window tz False d = (d + k * msPerDay, d + (k + 6) * msPerDay)"
    unfolding week_window_eq k_def g_def Let_def by simp
  have k: "- 6 \<le> k" "k \<le> 0" using g by (simp_all add: k_def)
  have gk: "(g + k) mod 7 = 1" using g by (simp add: k_def)
  show "getDay tz (fst (week_window tz False d)) = 1"
    unfolding w fst_conv getDay_add g_def[symmetric] by (rule gk)
  have "86400000 * k \<le> 0" "0 \<le> 86400000 * k + 518400000" using k by simp_all
  then show "fst (week_window tz False d) \<le> d"
    and "d \<le> fst (week_window tz False d) + 6 * msPerDay"
    unfolding w fst_conv msPerDay_def by simp_all
  show "snd (week_window tz False d) = fst (week_window tz False d) + 6 * msPerDay"
    unfolding w fst_conv snd_conv by (simp add: distrib_right)
qed

lemma week_window_sunday:
  "fst (week_window tz True d) = d + getDay tz d * msPerDay"
  "snd (week_window tz True d) = fst (week_window tz True d) + 6 * msPerDay"
  unfolding week_window_eq Let_def by (simp_all add: distrib_right)

text \<open>
  Claim C2. The week window starts on the configured first weekday, on or before the
  reference date, and ends six days later. With Monday as first weekday the resolver
  does so: for 2024-03-14, a Thursday, the window is 2024-03-11 to 2024-03-17. With
  Sunday as first weekday the resolver adds the weekday number where it should subtract
  it: for the same date the window is 2024-03-18 to 2024-03-24, not 2024-03-10 to
  2024-03-16. The theorem evaluates the resolver at both settings, in an environment at
  UTC.
\<close>

theorem C2_week_window_sunday_start:
  "getStartAndEndDateByView 0 (idle_data False ViewWeek (Date_local 0 2024 2 14 10 30 0))
     = \<lparr> p_date = (2024, 3, 14), p_start = (2024, 3, 11), p_end = (2024, 3, 17) \<rparr>
   \<and> getStartAndEndDateByView 0 (idle_data True ViewWeek (Date_local 0 2024 2 14 10 30 0))
     = \<lparr> p_date = (2024, 3, 14), p_start = (2024, 3, 18), p_end = (2024, 3, 24) \<rparr>"
  unfolding resolve_week by code_simp


text \<open>
  Claim C1. The window the resolver returns contains the reference date. The resolver
  breaks this in two places. In the week view with Sunday as first weekday the start is
  moved forward: for 2024-03-13, a Wednesday, the window starts on 2024-03-16. In the
  month view with Monday as first weekday, a month whose last day is a Sunday gets its
  end moved one day back: for 2024-06-30 the window ends on 2024-06-29. The theorem
  evaluates the resolver at both inputs, in an environment at UTC.
\<close>

theorem C1_window_misses_date:
  "(let p = getStartAndEndDateByView 0 (idle_data True ViewWeek (Date_local 0 2024 2 13 9 0 0))
    in p_date p = (2024, 3, 13) \<and> p_start p = (2024, 3, 16) \<and>
       \<not> date_string_le (p_start p) (p_date p))
   \<and> (let p = getStartAndEndDateByView 0 (idle_data False ViewMonth (Date_local 0 2024 5 30 9 0 0))
    in p_date p = (2024, 6, 30) \<and> p_end p = (2024, 6, 29) \<and>
       \<not> date_string_le (p_date p) (p_end p))"
  unfolding resolve_week resolve_month by code_simp

text \<open>
  Claim C3. The month window runs from the first weekday of the week that holds the first
  of the month to the last weekday of the week that holds the last of the month, so its
  length is a multiple of seven days. The resolver misses this in two ways. With Monday
  as first weekday and a month that ends on a Sunday it steps one day back from that
  Sunday: for 2024-06-15 the window is 2024-05-27 to 2024-06-29, 34 days, where the
  month grid drawn by \<^verbatim>\<open>buildMonthView\<close> ends on 2024-06-30. And it finds the last
  of the month by \<^verbatim>\<open>setMonth(getMonth() + 1)\<close> followed by \<^verbatim>\<open>setDate(0)\<close>, which
  for a day that the next month does not have lands a month late: for 2024-01-31 (Sunday
  as first weekday) the window ends on 2024-03-02, not on 2024-02-03.
\<close>

theorem C3_month_window_not_whole_weeks:
  "getStartAndEndDateByView 0 (idle_data False ViewMonth (Date_local 0 2024 5 15 9 0 0))
     = \<lparr> p_date = (2024, 6, 15), p_start = (2024, 5, 27), p_end = (2024, 6, 29) \<rparr>
   \<and> (case month_window 0 False (Date_local 0 2024 5 15 9 0 0) of
        (s, e) \<Rightarrow> (e - s) div msPerDay + 1) = 34
   \<and> getStartAndEndDateByView 0 (idle_data True ViewMonth (Date_local 0 2024 0 31 9 0 0))
     = \<lparr> p_date = (2024, 1, 31), p_start = (2023, 12, 31), p_end = (2024, 3, 2) \<rparr>"
  unfolding resolve_month by code_simp

section \<open>Navigation\<close>






lemma newDate_week_day:
  "newDate_back tz ViewWeek t = t - 7 * msPerDay"
  "newDate_forward tz ViewWeek t = t + 7 * msPerDay"
  "newDate_back tz ViewDay t = t - msPerDay"
  "newDate_forward tz ViewDay t = t + msPerDay"
  using setDate_add[of tz t "- 7"] setDate_add[of tz t 7]
    setDate_add[of tz t "- 1"] setDate_add[of tz t 1]
  by (simp_all add: newDate_back_def newDate_forward_def)

subsection \<open>What the rebuild after the shift touches\<close>

lemma trigger_frame [simp]:
  "trigger (data\<lparr>date := t\<rparr>) e = trigger data e"
  "trigger (data\<lparr>rendered := r\<rparr>) e = trigger data e"
  "trigger (data\<lparr>appointments := a\<rparr>) e = trigger data e"
  "trigger (data\<lparr>loading := l\<rparr>) e = trigger data e"
  by (simp_all add: trigger_def)

lemma checkAndSetAppointments_Nil [simp]:
  "checkAndSetAppointments tz now data [] = data\<lparr>appointments := []\<rparr>"
  by (simp add: checkAndSetAppointments_def)

lemma fetchAppointments_frame:
  "date (fst (fetchAppointments tz now data)) = date data"
  "view (fst (fetchAppointments tz now data)) = view data"
  "settings (fst (fetchAppointments tz now data)) = settings data"
  "searchMode (fst (fetchAppointments tz now data)) = searchMode data"
  "search_empty (fst (fetchAppointments tz now data)) = search_empty data"
  "failing_handlers (fst (fetchAppointments tz now data)) = failing_handlers data"
  "debug_log (fst (fetchAppointments tz now data)) = debug_log data"
  by (simp_all add: fetchAppointments_def methodClear_def after_load_def
      buildAppointmentsForView_def Let_def split: url_kind.split callback.split)


lemma fetchAppointments_busy:
  assumes "loading data"
  shows "fetchAppointments tz now data = (data, NoRequest)"
  using assms by (simp add: fetchAppointments_def)

lemma buildByView_frame:
  "date (fst (buildByView tz now data b)) = date data"
  "view (fst (buildByView tz now data b)) = view data"
  "settings (fst (buildByView tz now data b)) = settings data"
  "searchMode (fst (buildByView tz now data b)) = searchMode data"
  "search_empty (fst (buildByView tz now data b)) = search_empty data"
  "failing_handlers (fst (buildByView tz now data b)) = failing_handlers data"
  "debug_log (fst (buildByView tz now data b)) = debug_log data"
  by (simp_all add: buildByView_def Let_def fetchAppointments_frame split: view.split)



lemma buildByView_empties_container:
  assumes "loading data"
    and "searchMode data \<or> view data \<in> {ViewDay, ViewWeek, ViewMonth, ViewYear}"
  shows "rendered (fst (buildByView tz now data b)) = []"
  using assms
  by (auto simp add: buildByView_def Let_def fetchAppointments_busy trigger_def split: view.split)

lemma navigate_date:
  "date (fst (navigateBack tz now data)) = newDate_back tz (view data) (date data)"
  "date (fst (navigateForward tz now data)) = newDate_forward tz (view data) (date data)"
  by (simp_all add: navigateBack_def navigateForward_def Let_def buildByView_frame)





text \<open>
  A handler of the navigation event that throws: the new date is stored by then, the view
  is not rebuilt and nothing is fetched.
\<close>

lemma navigate_handler_throws:
  "\<not> trigger data ''navigate-back'' \<Longrightarrow>
     navigateBack tz now data =
       (data\<lparr>date := newDate_back tz (view data) (date data)\<rparr>, Uncaught)"
  "\<not> trigger data ''navigate-forward'' \<Longrightarrow>
     navigateForward tz now data =
       (data\<lparr>date := newDate_forward tz (view data) (date data)\<rparr>, Uncaught)"
  by (simp_all add: navigateBack_def navigateForward_def Let_def)

lemma navigate_handler_throws_example:
  "(let a = timed_appointment ''A'' (LocalDateTime 2024 3 14 9 0 0) (LocalDateTime 2024 3 14 10 0 0);
        data = (idle_data True ViewWeek 0)
                 \<lparr>appointments := [a], rendered := [a], failing_handlers := [''navigate-forward'']\<rparr>;
        left = navigateForward 0 0 data
    in snd left = Uncaught \<and> date (fst left) = 7 * msPerDay \<and>
       appointments (fst left) = [a] \<and> rendered (fst left) = [a] \<and> \<not> loading (fst left))"
  by (simp add: navigateForward_def trigger_def idle_data_def newDate_week_day Let_def)

lemma buildByView_handler_throws:
  "\<not> searchMode data \<Longrightarrow> \<not> trigger data ''view'' \<Longrightarrow>
     snd (buildByView tz now data True) = Uncaught \<and>
     appointments (fst (buildByView tz now data True)) = appointments data"
  by (simp add: buildByView_def Let_def split: view.split)



lemma idle_data_simps [simp]:
  "view (idle_data sunday v t) = v"
  "date (idle_data sunday v t) = t"
  "loading (idle_data sunday v t) = False"
  "trigger (idle_data sunday v t) e"
  by (simp_all add: idle_data_def trigger_def)

text \<open>
  The month view with a day that the target month does not have: back from 2024-03-31
  the date stays in March, forward from 2024-01-31 it skips February.
\<close>

lemma navigate_month_date:
  "date (fst (navigateBack tz now (idle_data sunday ViewMonth d))) =
     (if getDate tz (setMonth tz d (getMonth tz d - 1)) \<noteq> getDate tz d
      then setDate tz (setMonth tz d (getMonth tz d - 1)) 1
      else setMonth tz d (getMonth tz d - 1))"
  "date (fst (navigateForward tz now (idle_data sunday ViewMonth d))) =
     (if getDate tz (setMonth tz d (getMonth tz d + 1)) \<noteq> getDate tz d
      then setDate tz (setMonth tz d (getMonth tz d + 1)) 1
      else setMonth tz d (getMonth tz d + 1))"
  by (simp_all add: navigate_date newDate_back_def newDate_forward_def Let_def)

lemma navigate_month_overflow:
  "formatDateToDateString 0
     (date (fst (navigateBack 0 0 (idle_data True ViewMonth (Date_local 0 2024 2 31 9 0 0)))))
     = (2024, 3, 1)"
  "formatDateToDateString 0
     (date (fst (navigateForward 0 0 (idle_data True ViewMonth (Date_local 0 2024 0 31 9 0 0)))))
     = (2024, 3, 1)"
  unfolding navigate_month_date by code_simp+



section \<open>Display dates\<close>

lemma inside_own_week:
  assumes off: "0 \<le> off" "off \<le> 6"
  shows "setHours tz (setDate tz t (getDate tz t - off)) 0 0 0 0 \<le> t"
    and "t \<le> setHours tz (setDate tz t (getDate tz t - off)) 0 0 0 0 + 7 * 24 * 60 * 60 * 1000 - 1"
proof -
  define l where "l = LocalTime tz t"
  define n where "n = Day l"
  have l: "86400000 * n \<le> l" "l < 86400000 * n + 86400000"
    unfolding n_def Day_def msPerDay_def using div_bounds[of 86400000 l] by simp_all
  have t: "t = l - tz * msPerMinute" by (simp add: l_def LocalTime_def)
  define w1 where "w1 = setDate tz t (getDate tz t - off)"
  have w1: "w1 = t + (- off) * msPerDay"
    unfolding w1_def using setDate_add[of tz t "- off"] by simp
  have "Day (LocalTime tz w1) = n - off"
    unfolding w1 n_def l_def using LocalDay_add[of tz t "- off"] by simp
  then have ws: "setHours tz w1 0 0 0 0 = 86400000 * n - 86400000 * off - tz * msPerMinute"
    by (simp add: setHours_midnight msPerDay_def algebra_simps)
  show "setHours tz (setDate tz t (getDate tz t - off)) 0 0 0 0 \<le> t"
    unfolding w1_def[symmetric] ws using l off unfolding t by linarith
  show "t \<le> setHours tz (setDate tz t (getDate tz t - off)) 0 0 0 0 + 7 * 24 * 60 * 60 * 1000 - 1"
    unfolding w1_def[symmetric] ws using l off unfolding t by linarith
qed

lemma visibleInWeek_always:
  "visibleInWeek (dateDetails tz sunday isAllDay monthStart monthEnd start end tempDate)"
proof -
  define g where "g = getDay tz tempDate"
  have g: "0 \<le> g" "g \<le> 6" unfolding g_def getDay_def by (rule WeekDay_range)+
  show ?thesis
  proof (cases sunday)
    case True
    then show ?thesis
      using inside_own_week[OF g, where tz = tz and t = tempDate]
      by (simp add: dateDetails_def Let_def g_def)
  next
    case False
    show ?thesis
    proof (cases "g = 0")
      case True
      with False show ?thesis
        using inside_own_week[where off = 6 and tz = tz and t = tempDate]
        by (simp add: dateDetails_def Let_def g_def)
    next
      case nz: False
      with g have "0 \<le> g - 1" "g - 1 \<le> 6" by simp_all
      from inside_own_week[OF this, where tz = tz and t = tempDate] False nz show ?thesis
        by (simp add: dateDetails_def Let_def g_def)
    qed
  qed
qed

lemma extras_ignore_date:
  "setAppointmentExtras tz now (data\<lparr>date := d\<rparr>) appts = setAppointmentExtras tz now data appts"
  by (simp add: setAppointmentExtras_def)

lemma example_display_dates:
  "map (\<lambda>s. (dd_date s, visibleInWeek s, visibleInMonth s))
     (displayDates (appointmentExtras 0 (Date_local 0 2024 5 10 12 0 0) False
        (timed_appointment ''A'' (LocalDateTime 2024 3 15 10 0 0) (LocalDateTime 2024 3 19 11 0 0))))
   = [((2024, 3, 15), True, False), ((2024, 3, 16), True, False), ((2024, 3, 17), True, False),
      ((2024, 3, 18), True, False), ((2024, 3, 19), True, False)]"
  by code_simp

text \<open>
  Claim C5. Each display date is flagged visible in the week (month) exactly when it lies
  in the week (month) grid drawn for the reference date of the view. The code computes
  neither flag from the reference date. The week flag compares a day with the week that
  holds that same day, so it is true for every display date. The month flag compares with
  the grid of the month of the wall clock, \<^verbatim>\<open>new Date()\<close>. Changing the reference
  date changes no flag. The last part evaluates the code in an environment at UTC whose
  clock reads 2024-06-10: an appointment from 2024-03-15 10:00 to 2024-03-19 11:00,
  shown in the week of 2024-03-14 (2024-03-11 to 2024-03-17 with Monday first), gets
  five display dates, all flagged visible in the week and none visible in the month.
\<close>

theorem C5_flags_ignore_reference_date:
  "visibleInWeek (dateDetails tz sunday isAllDay monthStart monthEnd start end tempDate)
   \<and> setAppointmentExtras tz now (data\<lparr>date := d\<rparr>) appts = setAppointmentExtras tz now data appts
   \<and> map (\<lambda>s. (dd_date s, visibleInWeek s, visibleInMonth s))
        (displayDates (appointmentExtras 0 (Date_local 0 2024 5 10 12 0 0) False
           (timed_appointment ''A'' (LocalDateTime 2024 3 15 10 0 0)
              (LocalDateTime 2024 3 19 11 0 0))))
      = [((2024, 3, 15), True, False), ((2024, 3, 16), True, False),
         ((2024, 3, 17), True, False), ((2024, 3, 18), True, False),
         ((2024, 3, 19), True, False)]"
  using visibleInWeek_always extras_ignore_date example_display_dates by simp

section \<open>The order of the stored appointments\<close>

lemma compare_rank:
  "compareAppointments tz f a b \<le> 0 \<longleftrightarrow> sort_rank tz f a \<le> sort_rank tz f b"
  by (auto simp add: compareAppointments_def sort_rank_def start_time_def less_eq_prod_def)

lemma insert_by_insort_key:
  assumes "\<And>x y. cmp x y \<le> 0 \<longleftrightarrow> k x \<le> k y"
  shows "insert_by cmp x ys = insort_key k x ys"
  by (induction ys) (simp_all add: assms)

lemma array_sort_sort_key:
  assumes "\<And>x y. cmp x y \<le> 0 \<longleftrightarrow> k x \<le> k y"
  shows "array_sort cmp xs = sort_key k xs"
proof -
  have "insert_by cmp = insort_key k"
    by (intro ext) (rule insert_by_insort_key[OF assms])
  then show ?thesis by (simp add: array_sort_def sort_key_def)
qed

lemma sortAppointmentByStart_sort_key:
  "sortAppointmentByStart tz xs f = sort_key (sort_rank tz f) xs"
  by (cases xs) (simp_all add: sortAppointmentByStart_def
      array_sort_sort_key[where k = "sort_rank tz f", OF compare_rank])

lemma setAppointmentExtras_view:
  assumes "view data \<noteq> ViewYear"
  shows "map without_extras (setAppointmentExtras tz now data zs) = map without_extras zs"
    and "map (start_time tz') (setAppointmentExtras tz now data zs) = map (start_time tz') zs"
    and "map allDay (setAppointmentExtras tz now data zs) = map allDay zs"
  using assms
  by (simp_all add: setAppointmentExtras_def without_extras_def start_time_def comp_def)

lemma stored_appointments:
  assumes "view data \<noteq> ViewYear" "xs \<noteq> []"
  shows "appointments (checkAndSetAppointments tz now data xs) =
     setAppointmentExtras tz now data
       (sort_key (sort_rank tz (\<not> searchMode data)) (cleanAppointments tz xs))"
  using assms
  by (simp add: checkAndSetAppointments_def Let_def sortAppointmentByStart_sort_key)


lemma sorted_rank_search:
  assumes "sorted (map (sort_rank tz False) zs)"
  shows "sorted (map (start_time tz) zs)"
proof -
  have "sorted_wrt (\<lambda>a b. sort_rank tz False a \<le> sort_rank tz False b) zs"
    using assms by (simp add: sorted_map)
  then have "sorted_wrt (\<lambda>a b. start_time tz a \<le> start_time tz b) zs"
    by (rule sorted_wrt_mono_rel[rotated]) (simp add: sort_rank_def less_eq_prod_def)
  then show ?thesis by (simp add: sorted_map)
qed

lemma sorted_rank_all_day_first:
  assumes "sorted (map (sort_rank tz True) zs)"
  shows "sorted_wrt (\<lambda>a b. (allDay a \<or> \<not> allDay b) \<and>
                         (allDay a = allDay b \<longrightarrow> start_time tz a \<le> start_time tz b)) zs"
proof -
  have "sorted_wrt (\<lambda>a b. sort_rank tz True a \<le> sort_rank tz True b) zs"
    using assms by (simp add: sorted_map)
  then show ?thesis
    by (rule sorted_wrt_mono_rel[rotated])
       (auto simp add: sort_rank_def less_eq_prod_def split: if_splits)
qed

lemma stored_titles:
  assumes "view data \<noteq> ViewYear" "xs \<noteq> []"
  shows "map title (appointments (checkAndSetAppointments tz now data xs)) =
         map title (sortAppointmentByStart tz (cleanAppointments tz xs) (\<not> searchMode data))"
  using assms
  by (simp add: checkAndSetAppointments_def Let_def setAppointmentExtras_def comp_def)

text \<open>
  Claim C6, as the code has it. For a view other than year and a list that is not empty,
  the stored appointments are the cleaned records in another order (the extras aside).
  Outside search mode the all-day records come first and each group is ascending by
  start time. In search mode the records are still sorted, ascending by start time, and
  only the all-day records lose their place at the front; records with the same start
  time keep the order of the input.
\<close>

theorem C6_sorted_by_start:
  assumes "view data \<noteq> ViewYear" and "xs \<noteq> []"
  shows "(let ys = appointments (checkAndSetAppointments tz now data xs) in
          mset (map without_extras ys) = mset (map without_extras (cleanAppointments tz xs)) \<and>
          (\<not> searchMode data \<longrightarrow> sorted_wrt (all_day_first tz) ys) \<and>
          (searchMode data \<longrightarrow>
             sorted (map (start_time tz) ys) \<and>
             (\<forall>t. filter (\<lambda>a. start_time tz a = t) (map without_extras ys) =
                  filter (\<lambda>a. start_time tz a = t)
                    (map without_extras (cleanAppointments tz xs)))))"
proof -
  define cs where "cs = cleanAppointments tz xs"
  define f where "f = (\<not> searchMode data)"
  define zs where "zs = sort_key (sort_rank tz f) cs"
  define ys where "ys = appointments (checkAndSetAppointments tz now data xs)"
  have ys: "ys = setAppointmentExtras tz now data zs"
    unfolding ys_def zs_def cs_def f_def by (rule stored_appointments[OF assms])
  have core: "map without_extras ys = map without_extras zs"
    and st: "map (start_time tz) ys = map (start_time tz) zs"
    and ad: "map allDay ys = map allDay zs"
    unfolding ys by (rule setAppointmentExtras_view[OF assms(1)])+
  have srt: "sorted (map (sort_rank tz f) zs)"
    unfolding zs_def by (rule sorted_sort_key)
  have perm: "mset (map without_extras ys) = mset (map without_extras cs)"
    unfolding core zs_def by simp
  have a: "sorted_wrt (all_day_first tz) ys" if "\<not> searchMode data"
  proof -
    have eq: "(\<lambda>x y. all_day_first tz (without_extras x) (without_extras y)) = all_day_first tz"
      by (intro ext) (simp add: all_day_first_def without_extras_def start_time_def)
    from that srt have "sorted_wrt (all_day_first tz) zs"
      unfolding all_day_first_def f_def by (simp add: sorted_rank_all_day_first)
    then have "sorted_wrt (all_day_first tz) (map without_extras zs)"
      unfolding sorted_wrt_map eq .
    then have "sorted_wrt (all_day_first tz) (map without_extras ys)"
      by (simp add: core)
    then show ?thesis
      unfolding sorted_wrt_map eq .
  qed
  have b: "sorted (map (start_time tz) ys)" if "searchMode data"
    using that srt unfolding st f_def by (simp add: sorted_rank_search)
  have c: "filter (\<lambda>a. start_time tz a = t) (map without_extras ys) =
           filter (\<lambda>a. start_time tz a = t) (map without_extras cs)" if "searchMode data" for t
  proof -
    have r: "(\<lambda>a. start_time tz a = t) = (\<lambda>a. sort_rank tz f a = (0, t))"
      using that by (auto simp add: sort_rank_def f_def)
    have w: "(\<lambda>a. start_time tz a = t) \<circ> without_extras = (\<lambda>a. start_time tz a = t)"
      by (auto simp add: without_extras_def start_time_def)
    have "filter (\<lambda>a. start_time tz a = t) zs = filter (\<lambda>a. start_time tz a = t) cs"
      unfolding r zs_def by (rule sort_key_stable)
    then show ?thesis
      unfolding core by (simp add: filter_map w)
  qed
  show ?thesis
    using perm a b c unfolding ys_def cs_def Let_def by blast
qed

text \<open>
  The claim as stated says that search mode keeps the order of the input. It does not:
  two records the server sends with the later one first come out with the earlier one
  first.
\<close>

theorem C6_search_mode_reorders_counterexample:
  "map title (appointments (checkAndSetAppointments 0 0
      ((idle_data True ViewMonth 0)\<lparr>searchMode := True\<rparr>)
      [timed_appointment ''B'' (LocalDateTime 2024 3 14 9 30 0) (LocalDateTime 2024 3 14 10 30 0),
       timed_appointment ''A'' (LocalDateTime 2024 3 14 9 0 0) (LocalDateTime 2024 3 14 10 0 0)]))
   = [''A'', ''B'']"
proof -
  have "map title (sortAppointmentByStart 0 (cleanAppointments 0
      [timed_appointment ''B'' (LocalDateTime 2024 3 14 9 30 0) (LocalDateTime 2024 3 14 10 30 0),
       timed_appointment ''A'' (LocalDateTime 2024 3 14 9 0 0) (LocalDateTime 2024 3 14 10 0 0)])
      False) = [''A'', ''B'']"
    by code_simp
  then show ?thesis
    by (simp add: stored_titles idle_data_def)
qed

theorem C6_sorted_by_start_witness:
  "sorted (map (start_time 0) (appointments (checkAndSetAppointments 0 0
      ((idle_data True ViewMonth 0)\<lparr>searchMode := True\<rparr>)
      [timed_appointment ''B'' (LocalDateTime 2024 3 14 9 30 0) (LocalDateTime 2024 3 14 10 30 0),
       timed_appointment ''A'' (LocalDateTime 2024 3 14 9 0 0) (LocalDateTime 2024 3 14 10 0 0)])))"
  using C6_sorted_by_start[of "(idle_data True ViewMonth 0)\<lparr>searchMode := True\<rparr>"
      "[timed_appointment ''B'' (LocalDateTime 2024 3 14 9 30 0) (LocalDateTime 2024 3 14 10 30 0),
        timed_appointment ''A'' (LocalDateTime 2024 3 14 9 0 0) (LocalDateTime 2024 3 14 10 0 0)]" 0 0]
  by (simp add: idle_data_def Let_def)

section \<open>All-day appointments\<close>

lemma cleanAppointment_allDay:
  assumes "allDay a"
  shows "a_start (cleanAppointment tz a) =
           toISOString (Date_local tz (getFullYear tz (Date_parse tz (a_start a)))
             (getMonth tz (Date_parse tz (a_start a))) (getDate tz (Date_parse tz (a_start a))) 0 0 0)"
    and "a_end (cleanAppointment tz a) =
           toISOString (Date_local tz (getFullYear tz (Date_parse tz (a_end a)))
             (getMonth tz (Date_parse tz (a_end a))) (getDate tz (Date_parse tz (a_end a))) 23 59 59)"
    and "allDay (cleanAppointment tz a)"
  using assms by (simp_all add: cleanAppointment_def Let_def)

lemma clean_times:
  assumes "allDay a"
  shows "\<not> two_digit_year (getFullYear tz (Date_parse tz (a_start a))) \<Longrightarrow>
         Date_parse tz (a_start (cleanAppointment tz a)) =
           UTC tz (MakeDate (Day (LocalTime tz (Date_parse tz (a_start a)))) (MakeTime 0 0 0 0))"
    and "\<not> two_digit_year (getFullYear tz (Date_parse tz (a_end a))) \<Longrightarrow>
         Date_parse tz (a_end (cleanAppointment tz a)) =
           UTC tz (MakeDate (Day (LocalTime tz (Date_parse tz (a_end a)))) (MakeTime 23 59 59 0))"
  by (simp_all add: cleanAppointment_allDay[OF assms] Date_parse_toISOString
      Date_local_of_fields two_digit_year_def)

lemma all_day_duration:
  assumes "\<not> two_digit_year (getFullYear tz s)" "\<not> two_digit_year (getFullYear tz e)"
  shows "days (appointment_duration tz True s e) = Day (LocalTime tz e) - Day (LocalTime tz s) + 1"
proof -
  have "Date_local tz (getFullYear tz e) (getMonth tz e) (getDate tz e) 0 0 0
        - Date_local tz (getFullYear tz s) (getMonth tz s) (getDate tz s) 0 0 0
        = (Day (LocalTime tz e) - Day (LocalTime tz s)) * msPerDay"
    using assms
    by (simp add: Date_local_of_fields two_digit_year_def UTC_def MakeDate_def algebra_simps)
  then show ?thesis
    by (simp add: appointment_duration_def Let_def msPerDay_def)
qed

lemma all_day_normalized:
  assumes a: "allDay a"
    and ys: "\<not> two_digit_year (getFullYear tz (Date_parse tz (a_start a)))"
    and ye: "\<not> two_digit_year (getFullYear tz (Date_parse tz (a_end a)))"
  defines "c \<equiv> cleanAppointment tz a"
  shows "a_start c = toISOString (Date_parse tz (a_start c))"
    and "a_end c = toISOString (Date_parse tz (a_end c))"
    and "formatDateToDateString tz (Date_parse tz (a_start c)) =
           formatDateToDateString tz (Date_parse tz (a_start a))"
    and "formatTime tz (Date_parse tz (a_start c)) = (0, 0, 0)"
    and "formatDateToDateString tz (Date_parse tz (a_end c)) =
           formatDateToDateString tz (Date_parse tz (a_end a))"
    and "formatTime tz (Date_parse tz (a_end c)) = (23, 59, 59)"
    and "days (e_duration (appointmentExtras tz now sunday c)) =
           Day (LocalTime tz (Date_parse tz (a_end a))) - Day (LocalTime tz (Date_parse tz (a_start a))) + 1"
proof -
  define S where "S = Date_parse tz (a_start a)"
  define E where "E = Date_parse tz (a_end a)"
  have ps: "Date_parse tz (a_start c) = UTC tz (MakeDate (Day (LocalTime tz S)) (MakeTime 0 0 0 0))"
    unfolding c_def S_def by (rule clean_times(1)[OF a ys])
  have pe: "Date_parse tz (a_end c) = UTC tz (MakeDate (Day (LocalTime tz E)) (MakeTime 23 59 59 0))"
    unfolding c_def E_def by (rule clean_times(2)[OF a ye])
  have ds: "Day (LocalTime tz (Date_parse tz (a_start c))) = Day (LocalTime tz S)"
    unfolding ps by (rule formatTime_of_day_time(2)) simp_all
  have de: "Day (LocalTime tz (Date_parse tz (a_end c))) = Day (LocalTime tz E)"
    unfolding pe by (rule formatTime_of_day_time(2)) simp_all
  show "a_start c = toISOString (Date_parse tz (a_start c))"
    unfolding c_def by (simp add: cleanAppointment_allDay(1)[OF a] Date_parse_toISOString)
  show "a_end c = toISOString (Date_parse tz (a_end c))"
    unfolding c_def by (simp add: cleanAppointment_allDay(2)[OF a] Date_parse_toISOString)
  show "formatDateToDateString tz (Date_parse tz (a_start c)) =
           formatDateToDateString tz (Date_parse tz (a_start a))"
    using ds unfolding S_def by (rule same_day_same_date)
  show "formatTime tz (Date_parse tz (a_start c)) = (0, 0, 0)"
    unfolding ps by (rule formatTime_of_day_time(1)) simp_all
  show "formatDateToDateString tz (Date_parse tz (a_end c)) =
           formatDateToDateString tz (Date_parse tz (a_end a))"
    using de unfolding E_def by (rule same_day_same_date)
  show "formatTime tz (Date_parse tz (a_end c)) = (23, 59, 59)"
    unfolding pe by (rule formatTime_of_day_time(1)) simp_all
  have ys': "\<not> two_digit_year (getFullYear tz (Date_parse tz (a_start c)))"
    using ys ds by (simp add: getFullYear_def S_def)
  have ye': "\<not> two_digit_year (getFullYear tz (Date_parse tz (a_end c)))"
    using ye de by (simp add: getFullYear_def E_def)
  have "allDay c" unfolding c_def by (rule cleanAppointment_allDay(3)[OF a])
  then have "e_duration (appointmentExtras tz now sunday c) =
        appointment_duration tz True (Date_parse tz (a_start c)) (Date_parse tz (a_end c))"
    by (simp add: appointmentExtras_def Let_def split_beta)
  then show "days (e_duration (appointmentExtras tz now sunday c)) =
           Day (LocalTime tz (Date_parse tz (a_end a))) - Day (LocalTime tz (Date_parse tz (a_start a))) + 1"
    using all_day_duration[OF ys' ye'] ds de by (simp add: S_def E_def)
qed

lemma cleanAppointment_keeps:
  "allDay (cleanAppointment tz a) = allDay a"
  "title (cleanAppointment tz a) = title a"
  by (simp_all add: cleanAppointment_def Let_def)

lemma stored_from_input:
  assumes "view data \<noteq> ViewYear"
  shows "set (appointments (checkAndSetAppointments tz now data appts)) =
         (\<lambda>a. (cleanAppointment tz a)\<lparr>extras := Some (ViewExtras
                  (appointmentExtras tz now (startWeekOnSunday (settings data))
                     (cleanAppointment tz a)))\<rparr>) ` set appts"
proof (cases "appts = []")
  case True
  then show ?thesis by (simp add: checkAndSetAppointments_def)
next
  case False
  show ?thesis
    unfolding stored_appointments[OF assms False]
    using assms by (simp add: setAppointmentExtras_def cleanAppointments_def image_image)
qed

lemma stored_single:
  assumes "view data \<noteq> ViewYear"
  shows "appointments (checkAndSetAppointments tz now data [a]) =
         [(cleanAppointment tz a)\<lparr>extras := Some (ViewExtras
            (appointmentExtras tz now (startWeekOnSunday (settings data))
               (cleanAppointment tz a)))\<rparr>]"
  using assms
  by (simp add: stored_appointments setAppointmentExtras_def cleanAppointments_def)

lemma normalized_stored:
  assumes "allDay a" and "\<not> two_digit_years tz a"
  shows "normalized_all_day tz a
           ((cleanAppointment tz a)\<lparr>extras := Some (ViewExtras
              (appointmentExtras tz now sunday (cleanAppointment tz a)))\<rparr>)"
proof -
  have ys: "\<not> two_digit_year (getFullYear tz (Date_parse tz (a_start a)))"
    and ye: "\<not> two_digit_year (getFullYear tz (Date_parse tz (a_end a)))"
    using assms(2) by (simp_all add: two_digit_years_def two_digit_year_def)
  note n = all_day_normalized[OF assms(1) ys ye]
  show ?thesis
    unfolding normalized_all_day_def Let_def stored_days_def
    using n(1-6) n(7)[of now sunday]
    by (simp add: cleanAppointment_keeps assms(1))
qed

text \<open>
  Claim C7, as the code has it. In a view other than the year view, the records that
  \<^verbatim>\<open>checkAndSetAppointments\<close> stores as all-day are those of the all-day
  appointments it was given, each in normal form (years 0 to 99 aside): start and end
  are stored as \<^verbatim>\<open>toISOString()\<close> text of the instants that are 00:00:00 local
  time on the day of the start and 23:59:59 local time on the day of the end, and the
  duration in days is the number of calendar days from the local day of the start to the
  local day of the end, both counted, whatever the times of day. For the record with
  start 2024-05-01T08:00 and end 2024-05-03T17:00 these are 2024-05-01 00:00:00 and
  2024-05-03 23:59:59 local time, under every fixed offset from UTC, and the duration is
  3 days.
\<close>

theorem C7_all_day_normalization:
  "(view data \<noteq> ViewYear \<longrightarrow>
      (\<forall>b \<in> set (appointments (checkAndSetAppointments tz now data appts)).
         allDay b \<longrightarrow>
           (\<exists>a \<in> set appts. allDay a \<and> title b = title a \<and>
              (\<not> two_digit_years tz a \<longrightarrow> normalized_all_day tz a b))) \<and>
      (\<forall>a \<in> set appts.
         allDay a \<longrightarrow> \<not> two_digit_years tz a \<longrightarrow>
           (\<exists>b \<in> set (appointments (checkAndSetAppointments tz now data appts)).
              normalized_all_day tz a b)))
   \<and> (view data \<noteq> ViewYear \<longrightarrow>
        map (\<lambda>b. (formatDateToDateString tz (Date_parse tz (a_start b)),
                  formatTime tz (Date_parse tz (a_start b)),
                  formatDateToDateString tz (Date_parse tz (a_end b)),
                  formatTime tz (Date_parse tz (a_end b)),
                  stored_days b))
          (appointments (checkAndSetAppointments tz now data
             [all_day_appointment ''A''
                (LocalDateTime 2024 5 1 8 0 0) (LocalDateTime 2024 5 3 17 0 0)]))
        = [((2024, 5, 1), (0, 0, 0), (2024, 5, 3), (23, 59, 59), Some 3)])"
proof (intro conjI impI ballI)
  fix b
  assume v: "view data \<noteq> ViewYear"
    and b: "b \<in> set (appointments (checkAndSetAppointments tz now data appts))"
    and ad: "allDay b"
  define sunday where "sunday = startWeekOnSunday (settings data)"
  from b obtain a where a: "a \<in> set appts"
    and eq: "b = (cleanAppointment tz a)\<lparr>extras := Some (ViewExtras
                (appointmentExtras tz now sunday (cleanAppointment tz a)))\<rparr>"
    unfolding stored_from_input[OF v] sunday_def by blast
  have ada: "allDay a" using ad unfolding eq by (simp add: cleanAppointment_keeps)
  have t: "title b = title a" unfolding eq by (simp add: cleanAppointment_keeps)
  have "normalized_all_day tz a b" if "\<not> two_digit_years tz a"
    unfolding eq by (rule normalized_stored[OF ada that])
  with a ada t
  show "\<exists>a \<in> set appts. allDay a \<and> title b = title a \<and>
          (\<not> two_digit_years tz a \<longrightarrow> normalized_all_day tz a b)"
    by blast
next
  fix a
  assume v: "view data \<noteq> ViewYear"
    and a: "a \<in> set appts" and ada: "allDay a" and y: "\<not> two_digit_years tz a"
  define sunday where "sunday = startWeekOnSunday (settings data)"
  define b where "b = (cleanAppointment tz a)\<lparr>extras := Some (ViewExtras
                (appointmentExtras tz now sunday (cleanAppointment tz a)))\<rparr>"
  have "b \<in> set (appointments (checkAndSetAppointments tz now data appts))"
    unfolding stored_from_input[OF v] b_def sunday_def using a by blast
  moreover have "normalized_all_day tz a b"
    unfolding b_def by (rule normalized_stored[OF ada y])
  ultimately
  show "\<exists>b \<in> set (appointments (checkAndSetAppointments tz now data appts)).
          normalized_all_day tz a b"
    by blast
next
  assume v: "view data \<noteq> ViewYear"
  define a0 where "a0 = all_day_appointment ''A''
                  (LocalDateTime 2024 5 1 8 0 0) (LocalDateTime 2024 5 3 17 0 0)"
  define sunday where "sunday = startWeekOnSunday (settings data)"
  define b where "b = (cleanAppointment tz a0)\<lparr>extras := Some (ViewExtras
                (appointmentExtras tz now sunday (cleanAppointment tz a0)))\<rparr>"
  have dim: "DaysInMonth 2024 4 = 31" by (simp add: DaysInMonth_def)
  have a: "allDay a0" "a_start a0 = LocalDateTime 2024 5 1 8 0 0"
    "a_end a0 = LocalDateTime 2024 5 3 17 0 0"
    by (simp_all add: a0_def all_day_appointment_def)
  have s: "Day (LocalTime tz (Date_parse tz (a_start a0))) = MakeDay 2024 4 1"
    "formatDateToDateString tz (Date_parse tz (a_start a0)) = (2024, 5, 1)"
    "getFullYear tz (Date_parse tz (a_start a0)) = 2024"
    unfolding a using parse_local[of 5 1 2024 8 0 0 tz] dim by simp_all
  have e: "Day (LocalTime tz (Date_parse tz (a_end a0))) = MakeDay 2024 4 3"
    "formatDateToDateString tz (Date_parse tz (a_end a0)) = (2024, 5, 3)"
    "getFullYear tz (Date_parse tz (a_end a0)) = 2024"
    unfolding a using parse_local[of 5 3 2024 17 0 0 tz] dim by simp_all
  have y: "\<not> two_digit_years tz a0"
    by (simp add: two_digit_years_def s e)
  have diff: "MakeDay 2024 4 3 - MakeDay 2024 4 1 + 1 = 3"
    by (simp add: MakeDay_def)
  have n: "normalized_all_day tz a0 b"
    unfolding b_def by (rule normalized_stored[OF a(1) y])
  have st: "appointments (checkAndSetAppointments tz now data [a0]) = [b]"
    unfolding b_def sunday_def by (rule stored_single[OF v])
  show "map (\<lambda>b. (formatDateToDateString tz (Date_parse tz (a_start b)),
                  formatTime tz (Date_parse tz (a_start b)),
                  formatDateToDateString tz (Date_parse tz (a_end b)),
                  formatTime tz (Date_parse tz (a_end b)),
                  stored_days b))
          (appointments (checkAndSetAppointments tz now data
             [all_day_appointment ''A''
                (LocalDateTime 2024 5 1 8 0 0) (LocalDateTime 2024 5 3 17 0 0)]))
        = [((2024, 5, 1), (0, 0, 0), (2024, 5, 3), (23, 59, 59), Some 3)]"
    unfolding a0_def[symmetric] st
    using n diff by (simp add: normalized_all_day_def Let_def s e)
qed

lemma example_all_day_clean:
  "a_start (cleanAppointment 120 (all_day_appointment ''A''
      (LocalDateTime 2024 5 1 8 0 0) (LocalDateTime 2024 5 3 17 0 0)))
     = UtcDateTime 2024 4 30 22 0 0 0"
  "a_end (cleanAppointment 120 (all_day_appointment ''A''
      (LocalDateTime 2024 5 1 8 0 0) (LocalDateTime 2024 5 3 17 0 0)))
     = UtcDateTime 2024 5 3 21 59 59 0"
  unfolding all_day_appointment_def
  by (simp_all add: cleanAppointment_allDay) code_simp+

text \<open>
  The claim as stated gives the normalized start and end as 2024-05-01T00:00:00 and
  2024-05-03T23:59:59. The stored strings are UTC text: two hours east of Greenwich the
  month view stores 2024-04-30T22:00:00.000Z and 2024-05-03T21:59:59.000Z.
\<close>

theorem C7_stored_text_is_utc_counterexample:
  "map (\<lambda>b. (a_start b, a_end b))
     (appointments (checkAndSetAppointments 120 0 (idle_data True ViewMonth 0)
        [all_day_appointment ''A''
           (LocalDateTime 2024 5 1 8 0 0) (LocalDateTime 2024 5 3 17 0 0)]))
   = [(UtcDateTime 2024 4 30 22 0 0 0, UtcDateTime 2024 5 3 21 59 59 0)]"
  by (simp add: stored_single example_all_day_clean)

theorem C7_all_day_normalization_witness:
  "(let a = all_day_appointment ''B'' (LocalDateTime 2024 2 28 22 0 0) (LocalDateTime 2024 3 1 1 0 0);
        data = idle_data True ViewMonth 0;
        stored = appointments (checkAndSetAppointments 0 0 data [a])
    in view data \<noteq> ViewYear \<and> allDay a \<and> \<not> two_digit_years 0 a \<and>
       map allDay stored = [True] \<and>
       map (\<lambda>b. formatTime 0 (Date_parse 0 (a_start b))) stored = [(0, 0, 0)] \<and>
       map (\<lambda>b. formatTime 0 (Date_parse 0 (a_end b))) stored = [(23, 59, 59)] \<and>
       map stored_days stored = [Some 3])"
proof -
  define a where "a = all_day_appointment ''B'' (LocalDateTime 2024 2 28 22 0 0) (LocalDateTime 2024 3 1 1 0 0)"
  define data where "data = idle_data True ViewMonth 0"
  define b where "b = (cleanAppointment 0 a)\<lparr>extras := Some (ViewExtras
                (appointmentExtras 0 0 (startWeekOnSunday (settings data)) (cleanAppointment 0 a)))\<rparr>"
  have v: "view data \<noteq> ViewYear" by (simp add: data_def)
  have st: "appointments (checkAndSetAppointments 0 0 data [a]) = [b]"
    unfolding b_def by (rule stored_single[OF v])
  have dim: "DaysInMonth 2024 1 = 29" "DaysInMonth 2024 2 = 31" by code_simp+
  have f: "allDay a" "a_start a = LocalDateTime 2024 2 28 22 0 0"
    "a_end a = LocalDateTime 2024 3 1 1 0 0"
    by (simp_all add: a_def all_day_appointment_def)
  have adb: "allDay b" unfolding b_def by (simp add: cleanAppointment_keeps f(1))
  have s: "Day (LocalTime 0 (Date_parse 0 (a_start a))) = MakeDay 2024 1 28"
    "getFullYear 0 (Date_parse 0 (a_start a)) = 2024"
    unfolding f using parse_local(1,3)[of 2 28 2024 22 0 0 0] dim by simp_all
  have e: "Day (LocalTime 0 (Date_parse 0 (a_end a))) = MakeDay 2024 2 1"
    "getFullYear 0 (Date_parse 0 (a_end a)) = 2024"
    unfolding f using parse_local(1,3)[of 3 1 2024 1 0 0 0] dim by simp_all
  have diff: "MakeDay 2024 2 1 - MakeDay 2024 1 28 + 1 = 3"
    by code_simp
  have y: "\<not> two_digit_years 0 a" by (simp add: two_digit_years_def s e)
  show ?thesis
    unfolding a_def[symmetric] data_def[symmetric] Let_def
    using C7_all_day_normalization[of data 0 0 "[a]"] diff
    by (simp add: v st adb f(1) y s e normalized_all_day_def Let_def)
qed












section \<open>Columns of the overlap layout\<close>

lemma doesNotOverlap_iff: "doesNotOverlap column a \<longleftrightarrow> (\<forall>b \<in> set column. apart b a)"
  by (induction column) (auto simp add: apart_def)

lemma sorted_wrt_snoc: "sorted_wrt P (xs @ [x]) \<longleftrightarrow> sorted_wrt P xs \<and> (\<forall>y \<in> set xs. P y x)"
  by (simp add: sorted_wrt_append)

lemma place_in_columns_apart:
  assumes "\<forall>c \<in> set cols. sorted_wrt apart c" and "place_in_columns cols a = Some cols'"
  shows "\<forall>c \<in> set cols'. sorted_wrt apart c"
  using assms
proof (induction cols arbitrary: cols')
  case Nil
  then show ?case by simp
next
  case (Cons column cols)
  show ?case
  proof (cases "doesNotOverlap column a")
    case True
    with Cons.prems show ?thesis
      by (auto simp add: sorted_wrt_snoc doesNotOverlap_iff)
  next
    case False
    with Cons.prems obtain rest where r: "place_in_columns cols a = Some rest" "cols' = column # rest"
      by auto
    with Cons.IH[of rest] Cons.prems(1) show ?thesis by simp
  qed
qed

lemma place_appointment_apart:
  assumes "\<forall>c \<in> set (fst acc). sorted_wrt apart c"
  shows "\<forall>c \<in> set (fst (place_appointment appts acc ia)). sorted_wrt apart c"
proof (cases acc, cases ia)
  fix cols full i a
  assume acc: "acc = (cols, full)" and ia: "ia = (i, a)"
  show ?thesis
  proof (cases "place_in_columns cols a")
    case None
    with assms show ?thesis by (simp add: place_appointment_def acc ia)
  next
    case (Some cols')
    with assms place_in_columns_apart[of cols a cols'] show ?thesis
      by (simp add: place_appointment_def acc ia)
  qed
qed

lemma foldl_place_apart:
  assumes "\<forall>c \<in> set (fst acc). sorted_wrt apart c"
  shows "\<forall>c \<in> set (fst (foldl (place_appointment appts) acc ias)). sorted_wrt apart c"
  using assms
proof (induction ias arbitrary: acc)
  case Nil
  then show ?case by simp
next
  case (Cons ia ias)
  from Cons.prems have "\<forall>c \<in> set (fst (place_appointment appts acc ia)). sorted_wrt apart c"
    by (rule place_appointment_apart)
  then show ?case using Cons.IH by simp
qed

lemma layout_day_apart: "\<forall>c \<in> set (columns (layout_day slots)). sorted_wrt apart c"
proof -
  define appts where "appts = array_sort compareSlots slots"
  have "\<forall>c \<in> set (fst (foldl (place_appointment appts) ([], []) (enumerate 0 appts))).
          sorted_wrt apart c"
    by (rule foldl_place_apart) simp
  then show ?thesis
    by (simp add: layout_day_def appts_def Let_def split_beta)
qed

text \<open>
  Claim C8. In every weekday group the overlap layout produces, any two slots of one
  column are apart: one ends at or before the start of the other. The slots 09:00 to
  10:00 and 09:30 to 10:30 of one day are put in two columns.
\<close>

theorem C8_columns_do_not_overlap:
  "(\<forall>g column i j.
      groupOverlappingAppointments tz data appts weekday = Some g \<longrightarrow>
      column \<in> set (columns g) \<longrightarrow> i < j \<longrightarrow> j < length column \<longrightarrow>
      apart (column ! i) (column ! j))
   \<and> (let A = \<lparr> s_start = Date_parse 0 (LocalDateTime 2024 3 14 9 0 0),
                 s_end = Date_parse 0 (LocalDateTime 2024 3 14 10 0 0),
                 s_appointment = timed_appointment ''A'' (LocalDateTime 2024 3 14 9 0 0)
                                   (LocalDateTime 2024 3 14 10 0 0) \<rparr>;
            B = \<lparr> s_start = Date_parse 0 (LocalDateTime 2024 3 14 9 30 0),
                 s_end = Date_parse 0 (LocalDateTime 2024 3 14 10 30 0),
                 s_appointment = timed_appointment ''B'' (LocalDateTime 2024 3 14 9 30 0)
                                   (LocalDateTime 2024 3 14 10 30 0) \<rparr>
        in columns (layout_day [A, B]) = [[A], [B]] \<and> fullWidth (layout_day [A, B]) = [])"
proof (intro conjI allI impI)
  fix g column i j
  assume g: "groupOverlappingAppointments tz data appts weekday = Some g"
    and c: "column \<in> set (columns g)" and ij: "i < j" "j < length column"
  from g obtain slots where "g = layout_day slots"
    by (auto simp add: groupOverlappingAppointments_def Let_def split: if_splits)
  with c have "sorted_wrt apart column" using layout_day_apart by blast
  then show "apart (column ! i) (column ! j)" using ij by (rule sorted_wrt_nth_less)
next
  show "(let A = \<lparr> s_start = Date_parse 0 (LocalDateTime 2024 3 14 9 0 0),
                 s_end = Date_parse 0 (LocalDateTime 2024 3 14 10 0 0),
                 s_appointment = timed_appointment ''A'' (LocalDateTime 2024 3 14 9 0 0)
                                   (LocalDateTime 2024 3 14 10 0 0) \<rparr>;
            B = \<lparr> s_start = Date_parse 0 (LocalDateTime 2024 3 14 9 30 0),
                 s_end = Date_parse 0 (LocalDateTime 2024 3 14 10 30 0),
                 s_appointment = timed_appointment ''B'' (LocalDateTime 2024 3 14 9 30 0)
                                   (LocalDateTime 2024 3 14 10 30 0) \<rparr>
        in columns (layout_day [A, B]) = [[A], [B]] \<and> fullWidth (layout_day [A, B]) = [])"
    by code_simp
qed

lemma example_columns:
  "map_option (\<lambda>g. map (map (\<lambda>s. (title (s_appointment s), s_start s, s_end s))) (columns g))
    (groupOverlappingAppointments 0 (idle_data False ViewWeek 0)
          [single_day_appointment ''A'' (2024, 3, 14) 4 (9, 0, 0) (10, 0, 0),
           single_day_appointment ''B'' (2024, 3, 14) 4 (9, 30, 0) (10, 30, 0),
           single_day_appointment ''C'' (2024, 3, 14) 4 (10, 0, 0) (11, 0, 0)] 4)
   = Some [[(''A'', 1710406800000, 1710410400000), (''C'', 1710410400000, 1710414000000)],
           [(''B'', 1710408600000, 1710412200000)]]"
  by code_simp

theorem C8_columns_do_not_overlap_witness:
  "\<exists>g column.
     groupOverlappingAppointments 0 (idle_data False ViewWeek 0)
          [single_day_appointment ''A'' (2024, 3, 14) 4 (9, 0, 0) (10, 0, 0),
           single_day_appointment ''B'' (2024, 3, 14) 4 (9, 30, 0) (10, 30, 0),
           single_day_appointment ''C'' (2024, 3, 14) 4 (10, 0, 0) (11, 0, 0)] 4 = Some g \<and>
     column \<in> set (columns g) \<and> (0::nat) < 1 \<and> 1 < length column \<and>
     map (title \<circ> s_appointment) column = [''A'', ''C''] \<and>
     apart (column ! 0) (column ! 1)"
proof -
  define appts where "appts =
          [single_day_appointment ''A'' (2024, 3, 14) 4 (9, 0, 0) (10, 0, 0),
           single_day_appointment ''B'' (2024, 3, 14) 4 (9, 30, 0) (10, 30, 0),
           single_day_appointment ''C'' (2024, 3, 14) 4 (10, 0, 0) (11, 0, 0)]"
  from example_columns obtain g where
    g: "groupOverlappingAppointments 0 (idle_data False ViewWeek 0) appts 4 = Some g"
    and c: "map (map (\<lambda>s. (title (s_appointment s), s_start s, s_end s))) (columns g)
        = [[(''A'', 1710406800000, 1710410400000), (''C'', 1710410400000, 1710414000000)],
           [(''B'', 1710408600000, 1710412200000)]]"
    unfolding appts_def by auto
  from c obtain column rest where cols: "columns g = column # rest"
    and col: "map (\<lambda>s. (title (s_appointment s), s_start s, s_end s)) column
        = [(''A'', 1710406800000, 1710410400000), (''C'', 1710410400000, 1710414000000)]"
    by (cases "columns g") auto
  have "length (map (\<lambda>s. (title (s_appointment s), s_start s, s_end s)) column) = 2"
    unfolding col by simp
  then have len: "length column = 2" by simp
  have mem: "column \<in> set (columns g)" by (simp add: cols)
  have ttl: "map (title \<circ> s_appointment) column = [''A'', ''C'']"
  proof -
    have "map (title \<circ> s_appointment) column
          = map fst (map (\<lambda>s. (title (s_appointment s), s_start s, s_end s)) column)"
      by (simp add: comp_def)
    then show ?thesis by (simp add: col)
  qed
  have ap: "apart (column ! 0) (column ! 1)"
    by (rule C8_columns_do_not_overlap[THEN conjunct1, rule_format, OF g mem])
       (simp_all add: len)
  show ?thesis
    unfolding appts_def[symmetric]
    by (intro exI[of _ g] exI[of _ column] conjI g mem ttl ap) (simp_all add: len)
qed

section \<open>Failed fetches\<close>

text \<open>
  A call of \<^verbatim>\<open>fetchAppointments\<close> that ends with an exception: the hook
  \<^verbatim>\<open>queryParams\<close> throws, or a handler of \<^verbatim>\<open>before-load\<close> throws, or the
  function at \<^verbatim>\<open>settings.url\<close> throws or returns no promise. The loading flag is set
  by then and no handler is left that could clear it: the widget stays busy, and every
  later call returns at once. (The loading of the holidays wraps what its callback
  returns in \<^verbatim>\<open>Promise.resolve\<close>; here the callback is called bare.)
\<close>

lemma fetch_left_busy:
  assumes "\<not> loading data"
    and "queryParams (settings data) = HookThrows \<or>
         (\<not> (searchMode data \<and> search_empty data) \<and>
          (\<not> trigger data ''before-load'' \<or>
           url (settings data) = UrlFunction ReturnsNoPromise \<or>
           url (settings data) = UrlFunction CallbackThrows))"
  shows "snd (fetchAppointments tz now data) = Uncaught"
    and "loading (request_settled tz now (fetchAppointments tz now data) result)"
    and "fetchAppointments tz now (fst (fetchAppointments tz now data)) =
           (fst (fetchAppointments tz now data), NoRequest)"
  using assms
  by (auto simp add: fetchAppointments_def request_settled_def methodClear_def Let_def)

lemma fetch_handler_throws_example:
  "(let data = (idle_data True ViewMonth 0)\<lparr>failing_handlers := [''before-load'']\<rparr>;
        left = fetchAppointments 0 0 data
    in \<not> loading data \<and> snd left = Uncaught \<and> loading (fst left) \<and>
       fetchAppointments 0 0 (fst left) = (fst left, NoRequest))"
  by (simp add: idle_data_def fetchAppointments_def methodClear_def trigger_def Let_def)

text \<open>
  A handler of \<^verbatim>\<open>after-load\<close> that throws: the appointments are stored and not
  drawn; the loading flag is cleared all the same.
\<close>

lemma checkAndSetAppointments_handlers:
  "failing_handlers (checkAndSetAppointments tz now data appts) = failing_handlers data"
  by (simp add: checkAndSetAppointments_def Let_def)

lemma after_load_handler_throws:
  assumes "\<not> trigger data ''after-load''"
  shows "ajax_settled tz now data (Loaded appts) =
           (checkAndSetAppointments tz now data appts)\<lparr>xhr_pending := False, loading := False\<rparr>"
    and "callback_settled tz now data (Loaded appts) =
           (checkAndSetAppointments tz now data appts)\<lparr>loading := False\<rparr>"
  using assms
  by (simp_all add: ajax_settled_def callback_settled_def after_load_def Let_def trigger_def
      checkAndSetAppointments_handlers)

lemma after_load_draws:
  assumes "trigger data ''after-load''"
  shows "rendered (ajax_settled tz now data (Loaded appts)) =
           appointments (checkAndSetAppointments tz now data appts)"
    and "rendered (callback_settled tz now data (Loaded appts)) =
           appointments (checkAndSetAppointments tz now data appts)"
  using assms
  by (simp_all add: ajax_settled_def callback_settled_def after_load_def Let_def trigger_def
      checkAndSetAppointments_handlers buildAppointmentsForView_def methodClear_def)

lemma fetch_callback_throws:
  "(let data = (idle_data True ViewMonth 0)
                 \<lparr>settings := \<lparr>startWeekOnSunday = True, debug = True,
                               url = UrlFunction CallbackThrows, queryParams = NoHook\<rparr>\<rparr>;
        left = fetchAppointments 0 0 data
    in \<not> loading data \<and> snd left = Uncaught \<and> loading (fst left) \<and>
       debug_log (fst left) = [] \<and>
       fetchAppointments 0 0 (fst left) = (fst left, NoRequest))"
  by (simp add: idle_data_def fetchAppointments_def methodClear_def trigger_def Let_def)




end
